theory Spec2Isabelle
  imports Main
begin

section \<open>JavaScript values\<close>

text \<open>
  The two sources are JavaScript: \<^verbatim>\<open>packages/bitcore-tss/ecdsa/sign.js\<close> (the class
  \<^verbatim>\<open>Sign\<close>, one participant's side of a threshold-signing session) and
  \<^verbatim>\<open>packages/bitcore-lib-doge/lib/networks.js\<close> (the registry of networks).

  A JavaScript number is modelled as an integer or \<^verbatim>\<open>NaN\<close>: every number the two files
  compute with is a counter, a party index, a port or a version byte; fractions and the
  infinities are left out. \<open>Num i\<close> is the number that JavaScript prints as the integer
  \<open>i\<close>. Below \<^verbatim>\<open>2**53\<close> every integer is such a number and the arithmetic on them is exact. A
  number from \<^verbatim>\<open>2**53\<close> up is named by the shortest decimal that reads back as it, the
  digits \<^verbatim>\<open>String\<close> prints: \<^verbatim>\<open>2**60\<close> is \<open>Num 1152921504606847000\<close> and \<^verbatim>\<open>1e21\<close> is
  \<open>Num (10 ^ 21)\<close>.

  A string is a \<open>string\<close> (the bytes of its UTF-8 form) and a \<^verbatim>\<open>Buffer\<close> is the list of its
  bytes, so \<^verbatim>\<open>Buffer.from(s, 'utf8')\<close> and \<^verbatim>\<open>buf.toString('utf8')\<close> are the identity.
  An argument that may be left out is a \<open>nullable\<close>: \<^verbatim>\<open>undefined\<close>, \<^verbatim>\<open>null\<close> or a value of
  the documented type.
\<close>

datatype number = NaN | Num int

datatype 'a nullable = Undefined | Null | Value 'a

type_synonym buffer = "char list"

datatype error = AssertionError string | TypeError string | Thrown string

text \<open>\<^verbatim>\<open>x == null\<close>, which holds of \<^verbatim>\<open>undefined\<close> and of \<^verbatim>\<open>null\<close>.\<close>

fun nullish :: "'a nullable \<Rightarrow> bool" where
  "nullish Undefined = True"
| "nullish Null = True"
| "nullish (Value v) = False"

text \<open>The relational operators on numbers: a comparison with \<^verbatim>\<open>NaN\<close> is false.\<close>

fun num_less :: "number \<Rightarrow> number \<Rightarrow> bool" where
  "num_less (Num a) (Num b) = (a < b)"
| "num_less _ _ = False"

fun num_le :: "number \<Rightarrow> number \<Rightarrow> bool" where
  "num_le (Num a) (Num b) = (a \<le> b)"
| "num_le _ _ = False"

text \<open>\<^verbatim>\<open>a === b\<close> and \<^verbatim>\<open>a == b\<close> on two numbers: \<^verbatim>\<open>NaN\<close> equals nothing.\<close>

fun num_eq :: "number \<Rightarrow> number \<Rightarrow> bool" where
  "num_eq (Num a) (Num b) = (a = b)"
| "num_eq _ _ = False"

text \<open>\<^verbatim>\<open>a + k\<close> and \<^verbatim>\<open>a - k\<close> for a small integer \<open>k\<close>: the two files add to and subtract
  from a round number and a number of signers only.\<close>

fun num_add :: "number \<Rightarrow> int \<Rightarrow> number" where
  "num_add (Num a) k = Num (a + k)"
| "num_add NaN k = NaN"

text \<open>Truthiness of a number: \<^verbatim>\<open>0\<close> and \<^verbatim>\<open>NaN\<close> are falsy.\<close>

fun truthy :: "number \<Rightarrow> bool" where
  "truthy NaN = False"
| "truthy (Num a) = (a \<noteq> 0)"

subsection \<open>Number to string\<close>

definition digit_char :: "nat \<Rightarrow> char" where
  "digit_char d = char_of (48 + d)"

fun string_of_nat :: "nat \<Rightarrow> string" where
  "string_of_nat n = (if n < 10 then [digit_char n]
     else string_of_nat (n div 10) @ [digit_char (n mod 10)])"

declare string_of_nat.simps [simp del]

text \<open>
  \<^verbatim>\<open>String(x)\<close> for a number, as string concatenation and \<^verbatim>\<open>parseInt\<close> apply it
  (\<^verbatim>\<open>Number::toString\<close>, radix 10). With \<open>n\<close> the number of digits of the integer and \<open>s\<close>
  its digits without the zeros at the end: below \<^verbatim>\<open>1e21\<close> the result is the \<open>n\<close> digits; from
  \<^verbatim>\<open>1e21\<close> up it is the exponent form, the first digit of \<open>s\<close>, a point and the other digits
  if there are any, then \<^verbatim>\<open>e+\<close> and \<open>n - 1\<close>: \<^verbatim>\<open>String(1e21)\<close> is \<^verbatim>\<open>"1e+21"\<close>,
  \<^verbatim>\<open>String(12e20)\<close> is \<^verbatim>\<open>"1.2e+21"\<close>.
\<close>

definition exponent_form :: "nat \<Rightarrow> string" where
  "exponent_form v =
    (let ds = string_of_nat v;
         s = rev (dropWhile (\<lambda>c. c = CHR ''0'') (rev ds))
     in take 1 s @ (if 1 < length s then CHR ''.'' # drop 1 s else []) @ ''e+'' @
        string_of_nat (length ds - 1))"

definition string_of_magnitude :: "int \<Rightarrow> string" where
  "string_of_magnitude a =
     (if a < 10 ^ 21 then string_of_nat (nat a) else exponent_form (nat a))"

fun ToString :: "number \<Rightarrow> string" where
  "ToString NaN = ''NaN''"
| "ToString (Num i) =
     (if i < 0 then CHR ''-'' # string_of_magnitude (- i) else string_of_magnitude i)"

subsection \<open>\<^verbatim>\<open>parseInt\<close>\<close>

text \<open>
  \<^verbatim>\<open>parseInt(string)\<close> with no radix: leading white space is skipped, then an optional
  sign, then an optional \<^verbatim>\<open>0x\<close>/\<^verbatim>\<open>0X\<close> (radix 16, else radix 10), then the longest run of
  digits of the radix; no digit gives \<^verbatim>\<open>NaN\<close>. The white space is the ECMAScript set,
  each character in its UTF-8 form. The result is the integer the digits spell, which
  names the number JavaScript returns when the digits are those \<^verbatim>\<open>String\<close> printed or
  spell less than \<^verbatim>\<open>2**53\<close>.
\<close>

definition ws_seqs :: "string list" where
  "ws_seqs =
    [[CHR 0x09], [CHR 0x0A], [CHR 0x0B], [CHR 0x0C], [CHR 0x0D], [CHR 0x20],
     [CHR 0xC2, CHR 0xA0], [CHR 0xE1, CHR 0x9A, CHR 0x80],
     [CHR 0xE2, CHR 0x80, CHR 0x80], [CHR 0xE2, CHR 0x80, CHR 0x81],
     [CHR 0xE2, CHR 0x80, CHR 0x82], [CHR 0xE2, CHR 0x80, CHR 0x83],
     [CHR 0xE2, CHR 0x80, CHR 0x84], [CHR 0xE2, CHR 0x80, CHR 0x85],
     [CHR 0xE2, CHR 0x80, CHR 0x86], [CHR 0xE2, CHR 0x80, CHR 0x87],
     [CHR 0xE2, CHR 0x80, CHR 0x88], [CHR 0xE2, CHR 0x80, CHR 0x89],
     [CHR 0xE2, CHR 0x80, CHR 0x8A], [CHR 0xE2, CHR 0x80, CHR 0xA8],
     [CHR 0xE2, CHR 0x80, CHR 0xA9], [CHR 0xE2, CHR 0x80, CHR 0xAF],
     [CHR 0xE2, CHR 0x81, CHR 0x9F], [CHR 0xE3, CHR 0x80, CHR 0x80],
     [CHR 0xEF, CHR 0xBB, CHR 0xBF]]"

text \<open>The number of bytes of the white-space character \<open>s\<close> starts with, 0 when it starts with none.\<close>

definition ws_len :: "string \<Rightarrow> nat" where
  "ws_len s = (case filter (\<lambda>w. take (length w) s = w) ws_seqs of [] \<Rightarrow> 0 | w # _ \<Rightarrow> length w)"

text \<open>Leading white space is dropped one character at a time.\<close>

fun strip_ws :: "string \<Rightarrow> string" where
  "strip_ws [] = []"
| "strip_ws (c # cs) =
     (if ws_len (c # cs) = 0 then c # cs else strip_ws (drop (ws_len (c # cs) - 1) cs))"

declare strip_ws.simps [simp del]

text \<open>The value of a character as a digit: \<^verbatim>\<open>0-9\<close>, then \<^verbatim>\<open>a-z\<close> or \<^verbatim>\<open>A-Z\<close> from 10.\<close>

definition digit_val :: "char \<Rightarrow> nat option" where
  "digit_val c =
    (let k = (of_char c :: nat) in
     if 48 \<le> k \<and> k \<le> 57 then Some (k - 48)
     else if 97 \<le> k \<and> k \<le> 122 then Some (k - 87)
     else if 65 \<le> k \<and> k \<le> 90 then Some (k - 55)
     else None)"

definition is_digit :: "nat \<Rightarrow> char \<Rightarrow> bool" where
  "is_digit radix c = (case digit_val c of None \<Rightarrow> False | Some d \<Rightarrow> d < radix)"

definition digits_value :: "nat \<Rightarrow> string \<Rightarrow> nat" where
  "digits_value radix ds =
     foldl (\<lambda>acc c. acc * radix + (case digit_val c of None \<Rightarrow> 0 | Some d \<Rightarrow> d)) 0 ds"

definition parse_unsigned :: "string \<Rightarrow> nat option" where
  "parse_unsigned s =
    (let hex = (take 2 s = ''0x'' \<or> take 2 s = ''0X'');
         radix = (if hex then 16 else 10);
         ds = takeWhile (is_digit radix) (if hex then drop 2 s else s)
     in if ds = [] then None else Some (digits_value radix ds))"

definition parseInt :: "string \<Rightarrow> number" where
  "parseInt inputString =
    (let s = strip_ws inputString;
         neg = (take 1 s = ''-'');
         body = (if take 1 s = ''-'' \<or> take 1 s = ''+'' then drop 1 s else s)
     in case parse_unsigned body of
          None \<Rightarrow> NaN
        | Some v \<Rightarrow> Num (if neg then - int v else int v))"

text \<open>\<^verbatim>\<open>parseInt(x)\<close> for a number \<open>x\<close>: the argument is converted to a string first, so
  from \<^verbatim>\<open>1e21\<close> up only the digit before the point or the \<^verbatim>\<open>e\<close> is read: \<^verbatim>\<open>parseInt(1e21)\<close>
  is 1.\<close>

definition parseInt_number :: "number \<Rightarrow> number" where
  "parseInt_number x = parseInt (ToString x)"

text \<open>\<^verbatim>\<open>parseInt(x)\<close> for an element of a destructured array: a missing element is
  \<^verbatim>\<open>undefined\<close>, whose string form \<^verbatim>\<open>"undefined"\<close> has no digit.\<close>

definition parseInt_opt :: "string option \<Rightarrow> number" where
  "parseInt_opt x = (case x of None \<Rightarrow> parseInt ''undefined'' | Some s \<Rightarrow> parseInt s)"

subsection \<open>\<^verbatim>\<open>String.prototype.split\<close> and array destructuring\<close>

text \<open>\<^verbatim>\<open>s.split(c)\<close> for a one-character separator: never empty, \<^verbatim>\<open>''.split(':')\<close> is \<^verbatim>\<open>['']\<close>.\<close>

fun split :: "char \<Rightarrow> string \<Rightarrow> string list" where
  "split c [] = [[]]"
| "split c (x # xs) =
     (if x = c then [] # split c xs
      else (case split c xs of [] \<Rightarrow> [[x]] | w # ws \<Rightarrow> (x # w) # ws))"

text \<open>Element \<open>i\<close> of a destructuring pattern: \<open>None\<close> is \<^verbatim>\<open>undefined\<close>.\<close>

definition element :: "'a list \<Rightarrow> nat \<Rightarrow> 'a option" where
  "element xs i = (if i < length xs then Some (xs ! i) else None)"

section \<open>The signing session (\<^verbatim>\<open>sign.js\<close>)\<close>

subsection \<open>Data\<close>

text \<open>The key share made by key generation; both fields are Buffers.\<close>

record keychain =
  privateKeyShare :: buffer
  commonKeyChain :: buffer

text \<open>
  The messages of one round, \<^verbatim>\<open>{p2pMessages, broadcastMessages}\<close>, and the envelope
  \<^verbatim>\<open>_formatMessage\<close> makes of them, which adds \<^verbatim>\<open>round\<close>, \<^verbatim>\<open>partyId\<close> and \<^verbatim>\<open>publicKey\<close>.
  The payloads are opaque (\<open>'a\<close>).
\<close>

record 'a messages =
  p2pMessages :: "'a list"
  broadcastMessages :: "'a list"

record 'a envelope = "'a messages" +
  msg_round :: number
  msg_partyId :: number
  publicKey :: string

text \<open>The signature \<^verbatim>\<open>{r, s, v, pubKey}\<close>; \<^verbatim>\<open>pubKey\<close> is \<^verbatim>\<open>undefined\<close> (\<open>None\<close>) when the
  converted signature has fewer than four fields.\<close>

record signature =
  sig_r :: string
  sig_s :: string
  sig_v :: number
  sig_pubKey :: "string option"

text \<open>The private fields of \<^verbatim>\<open>Sign\<close>. \<open>'pk\<close> is a \<^verbatim>\<open>bitcoreLib.PrivateKey\<close>, \<open>'d\<close> the state
  of the engine \<^verbatim>\<open>DklsDsg.Dsg\<close>.\<close>

record ('pk, 'd) Sign =
  keychain :: keychain
  partyId :: number
  partySize :: number
  minSigners :: number
  derivationPath :: string
  messageHash :: buffer
  round :: number
  authKey :: 'pk
  dsg :: 'd
  signature :: "signature option"

text \<open>The constructor's argument object.\<close>

record 'k params =
  p_keychain :: "keychain nullable"
  p_partyId :: "number nullable"
  p_n :: "number nullable"
  p_m :: "number nullable"
  p_derivationPath :: "string nullable"
  p_messageHash :: "buffer nullable"
  p_authKey :: "'k nullable"
  p_round :: "number nullable"

text \<open>The argument of \<^verbatim>\<open>nextRound\<close>: an array of envelopes, or something that is no array.\<close>

datatype 'a js_array = NotAnArray | Array "'a list"

subsection \<open>Collaborators\<close>

text \<open>
  The code that \<^verbatim>\<open>sign.js\<close> imports is a parameter of the model: the engine
  (\<^verbatim>\<open>DklsDsg.Dsg\<close>), the codecs (\<^verbatim>\<open>DklsTypes\<close>), the peer channel (\<^verbatim>\<open>DklsComms\<close>), the
  assembler (\<^verbatim>\<open>DklsUtils\<close>), \<^verbatim>\<open>bitcoreLib.PrivateKey\<close>, \<^verbatim>\<open>encrypt\<close>/\<^verbatim>\<open>decrypt\<close> of
  \<^verbatim>\<open>utils.js\<close> and the base64 form of a Buffer. A call that throws returns \<open>Inl\<close>. The
  engine is mutated in place, so its methods return its new state, also when they throw.
  \<open>'k\<close> is what a caller passes as \<^verbatim>\<open>authKey\<close>.
\<close>

record ('k, 'pk, 'd, 'a) env =
  PrivateKey :: "'k \<Rightarrow> error + 'pk"
  pk_toString_hex :: "'pk \<Rightarrow> string"
  pk_toWIF :: "'pk \<Rightarrow> string"
  pk_publicKey :: "'pk \<Rightarrow> string"
  key_toString_hex :: "'k \<Rightarrow> string"
  key_string :: "'k \<Rightarrow> string option"
  Dsg :: "buffer \<Rightarrow> number \<Rightarrow> string \<Rightarrow> buffer \<Rightarrow> error + 'd"
  dsg_init :: "'d \<Rightarrow> (error + 'a) \<times> 'd"
  dsg_handleIncomingMessages :: "'d \<Rightarrow> 'a \<Rightarrow> (error + 'a) \<times> 'd"
  dsg_setSession :: "'d \<Rightarrow> buffer \<Rightarrow> error + 'd"
  dsgSessionBytes :: "'d \<Rightarrow> buffer option"
  dsgSession_toBytes :: "'d \<Rightarrow> buffer option"
  dsg_signature :: "'d \<Rightarrow> 'a"
  serializeBroadcastMessage :: "'a \<Rightarrow> error + 'a"
  serializeMessages :: "'a \<Rightarrow> error + 'a messages"
  deserializeMessages :: "'a \<Rightarrow> error + 'a"
  encryptAndAuthOutgoingMessages ::
    "'a messages \<Rightarrow> (number \<times> string) list \<Rightarrow> 'pk \<Rightarrow> error + 'a messages"
  decryptAndVerifyIncomingMessages :: "'a envelope list \<Rightarrow> 'pk \<Rightarrow> error + 'a"
  verifyAndConvertDklsSignature :: "buffer \<Rightarrow> 'a \<Rightarrow> string \<Rightarrow> string \<Rightarrow> error + string"
  encrypt :: "buffer \<Rightarrow> string \<Rightarrow> 'pk \<Rightarrow> error + buffer"
  decrypt :: "buffer \<Rightarrow> string \<Rightarrow> 'pk \<Rightarrow> error + buffer"
  toBase64 :: "buffer \<Rightarrow> string"
  fromBase64 :: "string \<Rightarrow> buffer"

text \<open>\<^verbatim>\<open>buf.toString('hex')\<close>: two lower-case hexadecimal digits a byte.\<close>

definition hex_digit :: "nat \<Rightarrow> char" where
  "hex_digit d = (if d < 10 then char_of (48 + d) else char_of (87 + d))"

definition toString_hex :: "buffer \<Rightarrow> string" where
  "toString_hex b = concat (map (\<lambda>c. [hex_digit (of_char c div 16), hex_digit (of_char c mod 16)]) b)"

subsection \<open>Assertions\<close>

text \<open>\<^verbatim>\<open>assert(cond, msg)\<close> followed by the rest of the function.\<close>

definition assert :: "bool \<Rightarrow> string \<Rightarrow> error + 'b \<Rightarrow> error + 'b" where
  "assert cond msg rest = (if cond then rest else Inl (AssertionError msg))"

text \<open>\<^verbatim>\<open>assert(x != null, msg)\<close> followed by the rest of the function, which reads \<open>x\<close>.\<close>

definition required :: "'a nullable \<Rightarrow> string \<Rightarrow> ('a \<Rightarrow> error + 'b) \<Rightarrow> error + 'b" where
  "required x msg rest = (case x of Value v \<Rightarrow> rest v | _ \<Rightarrow> Inl (AssertionError msg))"

subsection \<open>The constructor\<close>

text \<open>
  \<^verbatim>\<open>authKey.toString('hex') === key.toString('hex') || key.toWIF() === authKey\<close>, the
  test of the assertion on the identity key.
\<close>

definition recognized :: "('k, 'pk, 'd, 'a) env \<Rightarrow> 'pk \<Rightarrow> 'k \<Rightarrow> bool" where
  "recognized E pk ak =
     (pk_toString_hex E pk = key_toString_hex E ak \<or> key_string E ak = Some (pk_toWIF E pk))"

text \<open>\<^verbatim>\<open>derivationPath || 'm'\<close>: the empty string is falsy, as \<^verbatim>\<open>undefined\<close> and \<^verbatim>\<open>null\<close> are.\<close>

definition path_or_root :: "string nullable \<Rightarrow> string" where
  "path_or_root x = (case x of Value dp \<Rightarrow> if dp \<noteq> [] then dp else ''m'' | _ \<Rightarrow> ''m'')"

text \<open>\<^verbatim>\<open>parseInt(round) || 0\<close>: \<^verbatim>\<open>parseInt\<close> turns its argument into a string first, and
  \<^verbatim>\<open>NaN\<close> and \<^verbatim>\<open>0\<close> are falsy.\<close>

definition round_or_zero :: "number nullable \<Rightarrow> number" where
  "round_or_zero x =
    (let parsed =
       (case x of
          Value r \<Rightarrow> parseInt_number r
        | Undefined \<Rightarrow> parseInt ''undefined''
        | Null \<Rightarrow> parseInt ''null'')
     in if truthy parsed then parsed else Num 0)"

definition Sign_new :: "('k, 'pk, 'd, 'a) env \<Rightarrow> 'k params \<Rightarrow> error + ('pk, 'd) Sign" where
  "Sign_new E p =
    required (p_keychain p) ''keychain is required'' (\<lambda>kc.
    required (p_partyId p) ''partyId is required'' (\<lambda>pid.
    required (p_n p) ''n is required'' (\<lambda>n.
    required (p_m p) ''m is required'' (\<lambda>m.
    required (p_messageHash p) ''messageHash is required'' (\<lambda>mh.
    required (p_authKey p) ''authKey is required'' (\<lambda>ak.
    assert (num_le (Num 0) pid \<and> num_less pid n) ''partyId must be in the range [0, n-1]'' (
    let partyId' = parseInt_number pid in
    assert (num_less (Num 1) n) ''n must be at least 2'' (
    let partySize' = parseInt_number n in
    assert (num_less (Num 0) m \<and> num_le m partySize') ''m must be in the range [1, n]'' (
    let minSigners' = parseInt_number m in
    assert (case p_derivationPath p of Value dp \<Rightarrow> take 1 dp = ''m'' | _ \<Rightarrow> True)
      (''derivationPath must be a string starting with '' @ [CHR 0x22, CHR ''m'', CHR 0x22]) (
    let derivationPath' = path_or_root (p_derivationPath p) in
    assert (length mh = 32) ''messageHash must be a 32 byte buffer'' (
    assert (case p_round p of Value r \<Rightarrow> num_le (Num 0) r \<and> num_le r (Num 5) | _ \<Rightarrow> True)
      ''round must be in the range [0, 5]'' (
    let round' = round_or_zero (p_round p) in
    case PrivateKey E ak of
      Inl e \<Rightarrow> Inl e
    | Inr pk \<Rightarrow>
        assert (recognized E pk ak) ''Unrecognized authKey format'' (
        case Dsg E (privateKeyShare kc) partyId' derivationPath' mh of
          Inl e \<Rightarrow> Inl e
        | Inr d \<Rightarrow>
            Inr \<lparr> keychain = kc, partyId = partyId', partySize = partySize',
                  minSigners = minSigners', derivationPath = derivationPath',
                  messageHash = mh, round = round', authKey = pk, dsg = d,
                  signature = None \<rparr>)))))))))))))"

subsection \<open>The rounds\<close>

definition isSignatureReady :: "('pk, 'd) Sign \<Rightarrow> bool" where
  "isSignatureReady s = num_eq (round s) (Num 5)"

text \<open>\<^verbatim>\<open>_formatMessage\<close>: the envelope carries \<^verbatim>\<open>this.#round++\<close>, the round before the
  increment.\<close>

definition formatMessage ::
  "('k, 'pk, 'd, 'a) env \<Rightarrow> ('pk, 'd) Sign \<Rightarrow> 'a messages \<Rightarrow> 'a envelope \<times> ('pk, 'd) Sign" where
  "formatMessage E s signedMessage =
    (\<lparr> p2pMessages = p2pMessages signedMessage,
       broadcastMessages = broadcastMessages signedMessage,
       msg_round = round s,
       msg_partyId = partyId s,
       publicKey = pk_publicKey E (authKey s) \<rparr>,
     s\<lparr> round := num_add (round s) 1 \<rparr>)"

text \<open>Every method returns its result (\<open>Inl\<close> when it throws) and the session as the call
  leaves it.\<close>

definition initJoin ::
  "('k, 'pk, 'd, 'a) env \<Rightarrow> ('pk, 'd) Sign \<Rightarrow> (error + 'a envelope) \<times> ('pk, 'd) Sign" where
  "initJoin E s =
    (if \<not> num_eq (round s) (Num 0)
     then (Inl (AssertionError ''initJoin must be called before the rounds ''), s)
     else
       case dsg_init E (dsg s) of
         (Inl e, d) \<Rightarrow> (Inl e, s\<lparr> dsg := d \<rparr>)
       | (Inr unsignedMessageR1, d) \<Rightarrow>
           let s1 = s\<lparr> dsg := d \<rparr> in
           case serializeBroadcastMessage E unsignedMessageR1 of
             Inl e \<Rightarrow> (Inl e, s1)
           | Inr serializedMsg \<Rightarrow>
               case encryptAndAuthOutgoingMessages E
                      \<lparr> p2pMessages = [], broadcastMessages = [serializedMsg] \<rparr> []
                      (authKey s1) of
                 Inl e \<Rightarrow> (Inl e, s1)
               | Inr signedMessage \<Rightarrow>
                   (case formatMessage E s1 signedMessage of (msg, s2) \<Rightarrow> (Inr msg, s2)))"

definition nextRound ::
  "('k, 'pk, 'd, 'a) env \<Rightarrow> ('pk, 'd) Sign \<Rightarrow> 'a envelope js_array \<Rightarrow>
     (error + 'a envelope) \<times> ('pk, 'd) Sign" where
  "nextRound E s arg =
    (if \<not> num_less (Num 0) (round s)
     then (Inl (AssertionError ''initJoin must be called before participating in the rounds''), s)
     else if \<not> num_less (round s) (Num 5)
     then (Inl (AssertionError ''Signing rounds are over''), s)
     else
       case arg of
         NotAnArray \<Rightarrow> (Inl (AssertionError ''prevRoundMessages must be an array''), s)
       | Array prevRoundMessages \<Rightarrow>
           if \<not> num_eq (Num (int (length prevRoundMessages))) (num_add (minSigners s) (- 1))
           then (Inl (AssertionError ''Not ready to proceed to the next round''), s)
           else if \<not> list_all (\<lambda>msg. num_eq (msg_round msg) (num_add (round s) (- 1)))
                      prevRoundMessages
           then (Inl (AssertionError ''All messages must be from the previous round''), s)
           else if \<not> list_all (\<lambda>msg. \<not> num_eq (msg_partyId msg) (partyId s)) prevRoundMessages
           then (Inl (AssertionError ''Messages must not be from the yourself''), s)
           else
             case decryptAndVerifyIncomingMessages E prevRoundMessages (authKey s) of
               Inl e \<Rightarrow> (Inl e, s)
             | Inr decrypted \<Rightarrow>
                 case deserializeMessages E decrypted of
                   Inl e \<Rightarrow> (Inl e, s)
                 | Inr prevRndMsg \<Rightarrow>
                     case dsg_handleIncomingMessages E (dsg s) prevRndMsg of
                       (Inl e, d) \<Rightarrow> (Inl e, s\<lparr> dsg := d \<rparr>)
                     | (Inr thisRoundMsg, d) \<Rightarrow>
                         let s1 = s\<lparr> dsg := d \<rparr> in
                         case serializeMessages E thisRoundMsg of
                           Inl e \<Rightarrow> (Inl e, s1)
                         | Inr thisRoundMessage \<Rightarrow>
                             let partyPubKeys =
                               map (\<lambda>m. (msg_partyId m, publicKey m)) prevRoundMessages in
                             case encryptAndAuthOutgoingMessages E thisRoundMessage partyPubKeys
                                    (authKey s1) of
                               Inl e \<Rightarrow> (Inl e, s1)
                             | Inr signedMessage \<Rightarrow>
                                 (case formatMessage E s1 signedMessage of
                                    (msg, s2) \<Rightarrow> (Inr msg, s2)))"

subsection \<open>The signature\<close>

text \<open>\<^verbatim>\<open>'0x' + R\<close> where \<open>R\<close> may be \<^verbatim>\<open>undefined\<close>.\<close>

definition hex_field :: "string option \<Rightarrow> string" where
  "hex_field x = ''0x'' @ (case x of None \<Rightarrow> ''undefined'' | Some t \<Rightarrow> t)"

definition getSignature ::
  "('k, 'pk, 'd, 'a) env \<Rightarrow> ('pk, 'd) Sign \<Rightarrow> (error + signature) \<times> ('pk, 'd) Sign" where
  "getSignature E s =
    (if \<not> isSignatureReady s then (Inl (AssertionError ''Signature not ready''), s)
     else
       case signature s of
         Some cached \<Rightarrow> (Inr cached, s)
       | None \<Rightarrow>
           case verifyAndConvertDklsSignature E (messageHash s) (dsg_signature E (dsg s))
                  (toString_hex (commonKeyChain (keychain s))) (derivationPath s) of
             Inl e \<Rightarrow> (Inl e, s)
           | Inr convertedSignature \<Rightarrow>
               let parts = split CHR '':'' convertedSignature;
                   sig = \<lparr> sig_r = hex_field (element parts 1),
                           sig_s = hex_field (element parts 2),
                           sig_v = parseInt_opt (element parts 0),
                           sig_pubKey = element parts 3 \<rparr>
               in (Inr sig, s\<lparr> signature := Some sig \<rparr>))"

subsection \<open>Export and restore\<close>




text \<open>\<^verbatim>\<open>Buffer.from(x, 'base64')\<close> for an element of the split record, \<^verbatim>\<open>undefined\<close> when
  the record is too short.\<close>

definition Buffer_from_base64 :: "('k, 'pk, 'd, 'a) env \<Rightarrow> string option \<Rightarrow> error + buffer" where
  "Buffer_from_base64 E x =
    (case x of
       None \<Rightarrow> Inl (TypeError ''The first argument must be of type string or an instance of Buffer'')
     | Some t \<Rightarrow> Inr (fromBase64 E t))"

definition nullable_of :: "'b option \<Rightarrow> 'b nullable" where
  "nullable_of x = (case x of None \<Rightarrow> Undefined | Some t \<Rightarrow> Value t)"

definition restore ::
  "('k, 'pk, 'd, 'a) env \<Rightarrow> string \<Rightarrow> keychain nullable \<Rightarrow> 'k \<Rightarrow> error + ('pk, 'd) Sign" where
  "restore E session kc ak =
    (case PrivateKey E ak of
       Inl e \<Rightarrow> Inl e
     | Inr pk \<Rightarrow>
         assert (recognized E pk ak) ''Unrecognized authKey format'' (
         case decrypt E (fromBase64 E session) (pk_publicKey E pk) pk of
           Inl e \<Rightarrow> Inl e
         | Inr plain \<Rightarrow>
             let parts = split CHR '':'' plain in
             case Buffer_from_base64 E (element parts 6) of
               Inl e \<Rightarrow> Inl e
             | Inr mh \<Rightarrow>
                 case Sign_new E
                        \<lparr> p_keychain = kc,
                          p_partyId = Value (parseInt_opt (element parts 3)),
                          p_n = Value (parseInt_opt (element parts 1)),
                          p_m = Value (parseInt_opt (element parts 2)),
                          p_derivationPath = nullable_of (element parts 4),
                          p_messageHash = Value mh,
                          p_authKey = Value ak,
                          p_round = Value (parseInt_opt (element parts 0)) \<rparr> of
                   Inl e \<Rightarrow> Inl e
                 | Inr signer \<Rightarrow>
                     case Buffer_from_base64 E (element parts 5) of
                       Inl e \<Rightarrow> Inl e
                     | Inr bytes \<Rightarrow>
                         case dsg_setSession E (dsg signer) bytes of
                           Inl e \<Rightarrow> Inl e
                         | Inr d \<Rightarrow> Inr (signer\<lparr> dsg := d \<rparr>)))"

subsection \<open>Sessions a program can hold\<close>

text \<open>
  The fields of a \<^verbatim>\<open>Sign\<close> are private: a session is made by the constructor or by
  \<^verbatim>\<open>restore\<close>, and changed by \<^verbatim>\<open>initJoin\<close>, \<^verbatim>\<open>nextRound\<close> and \<^verbatim>\<open>getSignature\<close> only.
\<close>

inductive reachable :: "('k, 'pk, 'd, 'a) env \<Rightarrow> ('pk, 'd) Sign \<Rightarrow> bool"
  for E :: "('k, 'pk, 'd, 'a) env" where
  constructed: "Sign_new E p = Inr s \<Longrightarrow> reachable E s"
| restored: "restore E session kc ak = Inr s \<Longrightarrow> reachable E s"
| joined: "reachable E s \<Longrightarrow> reachable E (snd (initJoin E s))"
| advanced: "reachable E s \<Longrightarrow> reachable E (snd (nextRound E s arg))"
| signed: "reachable E s \<Longrightarrow> reachable E (snd (getSignature E s))"

subsection \<open>Calls in sequence\<close>

text \<open>A caller's later calls on a session, one after another; \<^verbatim>\<open>export\<close> changes nothing.\<close>

datatype 'a call = InitJoin | NextRound "'a envelope js_array" | GetSignature | Export

fun perform :: "('k, 'pk, 'd, 'a) env \<Rightarrow> ('pk, 'd) Sign \<Rightarrow> 'a call \<Rightarrow> ('pk, 'd) Sign" where
  "perform E s InitJoin = snd (initJoin E s)"
| "perform E s (NextRound arg) = snd (nextRound E s arg)"
| "perform E s GetSignature = snd (getSignature E s)"
| "perform E s Export = s"

definition run :: "('k, 'pk, 'd, 'a) env \<Rightarrow> ('pk, 'd) Sign \<Rightarrow> 'a call list \<Rightarrow> ('pk, 'd) Sign" where
  "run E s calls = foldl (perform E) s calls"

subsection \<open>What the constructor establishes\<close>

text \<open>The facts the constructor's assertions leave behind; every method keeps them.\<close>

definition session_inv :: "('k, 'pk, 'd, 'a) env \<Rightarrow> ('pk, 'd) Sign \<Rightarrow> bool" where
  "session_inv E s \<longleftrightarrow>
     (\<exists>p n m r.
        partyId s = Num p \<and> partySize s = Num n \<and> minSigners s = Num m \<and> round s = Num r \<and>
        0 \<le> p \<and> p < 10 ^ 21 \<and> 1 \<le> n \<and> n < 10 ^ 21 \<and> 0 < m \<and> m \<le> n \<and> 0 \<le> r \<and> r \<le> 5) \<and>
     take 1 (derivationPath s) = ''m'' \<and>
     length (messageHash s) = 32 \<and>
     (\<exists>d. Dsg E (privateKeyShare (keychain s)) (partyId s) (derivationPath s) (messageHash s) = Inr d)"



section \<open>The network registry (\<^verbatim>\<open>networks.js\<close>)\<close>

subsection \<open>Data\<close>

text \<open>
  The properties of the object passed to \<^verbatim>\<open>add\<close>, and of a variant in its \<^verbatim>\<open>variants\<close>
  array. The property \<^verbatim>\<open>alias\<close> is written \<open>alias'\<close> and \<^verbatim>\<open>is\<close> is written \<open>is_fn\<close>. A property is a value of its documented type (a string, a number, an array of
  strings), or \<open>None\<close> when it is left out or \<^verbatim>\<open>undefined\<close>. \<^verbatim>\<open>is\<close> is a function; it is
  kept as its source text, which is what \<^verbatim>\<open>String(f)\<close> gives and what the index is keyed
  by.
\<close>

record fields =
  name :: "string option"
  alias' :: "string option"
  is_fn :: "string option"
  pubkeyhash :: "int option"
  privatekey :: "int option"
  scripthash :: "int option"
  xpubkey :: "int option"
  xprivkey :: "int option"
  networkMagic :: "int option"
  port :: "int option"
  dnsSeeds :: "string list option"

datatype netdata = NetData (props: fields) (variants: "netdata list option")

text \<open>
  A \<^verbatim>\<open>Network\<close> object. \<open>oid\<close> is the object's identity: every \<^verbatim>\<open>new Network()\<close> takes
  the next one. \<open>networkMagic\<close> stands for the Buffer that \<^verbatim>\<open>integerAsBuffer\<close> makes of the
  number kept here.
\<close>

record Network = fields +
  oid :: nat

text \<open>The values \<^verbatim>\<open>Object.values\<close> lists: a string, a number, a function, or an object (a
  Buffer, an array), whose content the registry never reads.\<close>

datatype jsval = JUndefined | JStr string | JNum int | JFun string | JObject

text \<open>\<^verbatim>\<open>networks\<close>, \<^verbatim>\<open>networkMaps\<close> (an object used as a map: its keys are strings) and the
  number of Network objects made so far.\<close>

record registry =
  networks :: "Network list"
  networkMaps :: "string \<Rightarrow> Network list option"
  allocated :: nat

definition empty_registry :: registry where
  "empty_registry = \<lparr> networks = [], networkMaps = (\<lambda>k. None), allocated = 0 \<rparr>"

subsection \<open>Property access on \<^verbatim>\<open>networkMaps\<close>\<close>

text \<open>
  \<^verbatim>\<open>networkMaps\<close> is made by \<^verbatim>\<open>{}\<close>, so a key it does not hold is looked up on
  \<^verbatim>\<open>Object.prototype\<close>. Its members, each with its \<^verbatim>\<open>length\<close> (the parameters of a
  function; \<^verbatim>\<open>__proto__\<close> is the prototype object itself and has none):
\<close>

definition Object_prototype :: "(string \<times> nat option) list" where
  "Object_prototype =
    [(''constructor'', Some 1), (''__defineGetter__'', Some 2), (''__defineSetter__'', Some 2),
     (''hasOwnProperty'', Some 1), (''__lookupGetter__'', Some 1), (''__lookupSetter__'', Some 1),
     (''isPrototypeOf'', Some 1), (''propertyIsEnumerable'', Some 1), (''toString'', Some 0),
     (''valueOf'', Some 0), (''__proto__'', None), (''toLocaleString'', Some 0)]"

datatype member = Own "Network list" | Inherited string "nat option" | Missing

definition networkMaps_at :: "(string \<Rightarrow> Network list option) \<Rightarrow> string \<Rightarrow> member" where
  "networkMaps_at maps k =
    (case maps k of
       Some l \<Rightarrow> Own l
     | None \<Rightarrow> (case map_of Object_prototype k of Some len \<Rightarrow> Inherited k len | None \<Rightarrow> Missing))"

subsection \<open>\<^verbatim>\<open>addNetwork\<close>\<close>

definition js_value :: "('b \<Rightarrow> jsval) \<Rightarrow> 'b option \<Rightarrow> jsval" where
  "js_value c x = (case x of None \<Rightarrow> JUndefined | Some v \<Rightarrow> c v)"

text \<open>\<^verbatim>\<open>Object.values(network)\<close>, in the order the properties are defined; the last three
  exist only when they were defined.\<close>

definition Object_values :: "Network \<Rightarrow> jsval list" where
  "Object_values n =
    [js_value JStr (name n), js_value JStr (alias' n), js_value JFun (is_fn n),
     js_value JNum (pubkeyhash n), js_value JNum (privatekey n), js_value JNum (scripthash n),
     js_value JNum (xpubkey n), js_value JNum (xprivkey n)]
    @ (case networkMagic n of None \<Rightarrow> [] | Some b \<Rightarrow> [JObject])
    @ (case port n of None \<Rightarrow> [] | Some p \<Rightarrow> [JNum p])
    @ (case dnsSeeds n of None \<Rightarrow> [] | Some l \<Rightarrow> [JObject])"

text \<open>\<^verbatim>\<open>value != null && typeof value !== 'object'\<close>\<close>

fun indexed :: "jsval \<Rightarrow> bool" where
  "indexed JUndefined = False"
| "indexed JObject = False"
| "indexed v = True"

text \<open>The property key \<^verbatim>\<open>networkMaps[value]\<close> uses: the value as a string.\<close>

fun property_key :: "jsval \<Rightarrow> string" where
  "property_key (JStr t) = t"
| "property_key (JNum i) = ToString (Num i)"
| "property_key (JFun src) = src"
| "property_key JUndefined = ''undefined''"
| "property_key JObject = ''[object Object]''"

text \<open>
  One turn of the loop over the values. Under a key inherited from \<^verbatim>\<open>Object.prototype\<close>
  \<^verbatim>\<open>networkMaps[value]\<close> is truthy and has no \<^verbatim>\<open>push\<close>: the call throws.
\<close>

definition index_value ::
  "Network \<Rightarrow> jsval \<Rightarrow> (string \<Rightarrow> Network list option) \<Rightarrow> error + (string \<Rightarrow> Network list option)" where
  "index_value network v maps =
    (if \<not> indexed v then Inr maps
     else
       case networkMaps_at maps (property_key v) of
         Missing \<Rightarrow> Inr (maps (property_key v \<mapsto> [network]))
       | Own l \<Rightarrow> Inr (maps (property_key v \<mapsto> l @ [network]))
       | Inherited k len \<Rightarrow> Inl (TypeError ''networkMaps[value].push is not a function''))"

fun index_values ::
  "Network \<Rightarrow> jsval list \<Rightarrow> (string \<Rightarrow> Network list option) \<Rightarrow>
     error option \<times> (string \<Rightarrow> Network list option)" where
  "index_values network [] maps = (None, maps)"
| "index_values network (v # vs) maps =
     (case index_value network v maps of
        Inl e \<Rightarrow> (Some e, maps)
      | Inr maps' \<Rightarrow> index_values network vs maps')"

text \<open>\<^verbatim>\<open>if (data.networkMagic)\<close>, \<^verbatim>\<open>if (data.port)\<close>: \<^verbatim>\<open>0\<close> is falsy, as \<^verbatim>\<open>undefined\<close> is.\<close>

definition truthy_number :: "int option \<Rightarrow> int option" where
  "truthy_number x = (case x of Some i \<Rightarrow> if i \<noteq> 0 then Some i else None | None \<Rightarrow> None)"

definition new_Network :: "nat \<Rightarrow> fields \<Rightarrow> Network" where
  "new_Network i d =
    \<lparr> name = name d, alias' = alias' d, is_fn = is_fn d, pubkeyhash = pubkeyhash d,
      privatekey = privatekey d, scripthash = scripthash d, xpubkey = xpubkey d,
      xprivkey = xprivkey d, networkMagic = truthy_number (networkMagic d),
      port = truthy_number (port d), dnsSeeds = dnsSeeds d, oid = i \<rparr>"

text \<open>\<^verbatim>\<open>{...data, variants: undefined, ...variant}\<close>: a property the variant has wins, the
  \<^verbatim>\<open>variants\<close> of the variant included.\<close>

definition later :: "'b option \<Rightarrow> 'b option \<Rightarrow> 'b option" where
  "later x y = (case y of Some v \<Rightarrow> Some v | None \<Rightarrow> x)"

definition override :: "fields \<Rightarrow> fields \<Rightarrow> fields" where
  "override d v =
    \<lparr> name = later (name d) (name v), alias' = later (alias' d) (alias' v),
      is_fn = later (is_fn d) (is_fn v), pubkeyhash = later (pubkeyhash d) (pubkeyhash v),
      privatekey = later (privatekey d) (privatekey v),
      scripthash = later (scripthash d) (scripthash v), xpubkey = later (xpubkey d) (xpubkey v),
      xprivkey = later (xprivkey d) (xprivkey v),
      networkMagic = later (networkMagic d) (networkMagic v), port = later (port d) (port v),
      dnsSeeds = later (dnsSeeds d) (dnsSeeds v) \<rparr>"

definition spread :: "netdata \<Rightarrow> netdata \<Rightarrow> netdata" where
  "spread data variant = NetData (override (props data) (props variant)) (variants variant)"

text \<open>\<^verbatim>\<open>data.variants || []\<close>\<close>

definition variants_or_empty :: "netdata \<Rightarrow> netdata list" where
  "variants_or_empty data = (case variants data of None \<Rightarrow> [] | Some l \<Rightarrow> l)"

text \<open>The number of objects in a \<^verbatim>\<open>data\<close>: itself, its variants, theirs, and so on.\<close>

fun weight :: "netdata \<Rightarrow> nat" where
  "weight (NetData d vs) = Suc (case vs of None \<Rightarrow> 0 | Some l \<Rightarrow> sum_list (map weight l))"

text \<open>
  \<^verbatim>\<open>addNetwork\<close> returns the network and leaves the registry changed; when it throws,
  what it had written stays. \<open>add_variants\<close> is its loop over \<^verbatim>\<open>data.variants || []\<close>.
\<close>

function addNetwork :: "netdata \<Rightarrow> registry \<Rightarrow> (error + Network) \<times> registry"
  and add_variants :: "netdata \<Rightarrow> netdata list \<Rightarrow> registry \<Rightarrow> error option \<times> registry" where
  "addNetwork data reg =
    (let network = new_Network (allocated reg) (props data);
         reg0 = reg\<lparr> allocated := Suc (allocated reg) \<rparr>
     in case index_values network (Object_values network) (networkMaps reg0) of
          (Some e, maps) \<Rightarrow> (Inl e, reg0\<lparr> networkMaps := maps \<rparr>)
        | (None, maps) \<Rightarrow>
            (case add_variants data (variants_or_empty data)
                    (reg0\<lparr> networkMaps := maps, networks := networks reg0 @ [network] \<rparr>) of
               (Some e, reg1) \<Rightarrow> (Inl e, reg1)
             | (None, reg1) \<Rightarrow> (Inr network, reg1)))"
| "add_variants data [] reg = (None, reg)"
| "add_variants data (variant # rest) reg =
    (case addNetwork (spread data variant) reg of
       (Inl e, reg1) \<Rightarrow> (Some e, reg1)
     | (Inr network, reg1) \<Rightarrow> add_variants data rest reg1)"
  by pat_completeness auto
termination
proof (relation "measure (\<lambda>x. case x of
        Inl (data, reg) \<Rightarrow> 2 * weight data
      | Inr (data, vs, reg) \<Rightarrow> 2 * sum_list (map weight vs) + 1)", goal_cases)
  case 1
  show ?case by simp
next
  case (2 data reg network reg0 r maps)
  have "sum_list (map weight (variants_or_empty data)) < weight data"
    by (cases data) (simp add: variants_or_empty_def split: option.splits)
  then show ?case by simp
next
  case (3 data variant rest reg)
  have "weight (spread data variant) = weight variant"
    by (cases variant) (simp add: spread_def)
  then show ?case by simp
next
  case (4 data variant rest reg r e reg1)
  have "0 < weight variant" by (cases variant) simp
  then show ?case by simp
qed

declare addNetwork.simps [simp del]

subsection \<open>\<^verbatim>\<open>get\<close>\<close>

text \<open>The first argument of \<^verbatim>\<open>get\<close>, a string, a number or a Network, and the second:
  nothing, one property name, or an array of names.\<close>

datatype arg = AStr string | ANum int | ANet Network

datatype keys_arg = NoKeys | Key string | Keys "string list"

text \<open>What \<^verbatim>\<open>get\<close> returns: a network, \<^verbatim>\<open>undefined\<close>, the empty array stored under the key,
  or the member of \<^verbatim>\<open>Object.prototype\<close> of that name.\<close>

datatype found = Found Network | NotFound | EmptyArray | Member string

text \<open>\<^verbatim>\<open>if (keys)\<close> and \<^verbatim>\<open>if (!Array.isArray(keys)) keys = [keys]\<close>: the empty string is falsy,
  the empty array is not.\<close>

definition key_list :: "keys_arg \<Rightarrow> string list option" where
  "key_list keys =
    (case keys of
       NoKeys \<Rightarrow> None
     | Key k \<Rightarrow> if k = [] then None else Some [k]
     | Keys ks \<Rightarrow> Some ks)"

text \<open>\<^verbatim>\<open>network[key] === arg\<close>: a string equals the name or the alias, a number one of
  the six numeric properties; a function, a Buffer, an array and \<^verbatim>\<open>undefined\<close> equal neither.\<close>

definition property_is :: "Network \<Rightarrow> string \<Rightarrow> arg \<Rightarrow> bool" where
  "property_is n key a =
    (case a of
       AStr t \<Rightarrow> (key = ''name'' \<and> name n = Some t) \<or> (key = ''alias'' \<and> alias' n = Some t)
     | ANum i \<Rightarrow>
         (key = ''pubkeyhash'' \<and> pubkeyhash n = Some i) \<or>
         (key = ''privatekey'' \<and> privatekey n = Some i) \<or>
         (key = ''scripthash'' \<and> scripthash n = Some i) \<or>
         (key = ''xpubkey'' \<and> xpubkey n = Some i) \<or>
         (key = ''xprivkey'' \<and> xprivkey n = Some i) \<or>
         (key = ''port'' \<and> port n = Some i)
     | ANet m \<Rightarrow> False)"

text \<open>The property key of \<^verbatim>\<open>networkMaps[arg]\<close>; a Network's \<^verbatim>\<open>toString\<close> is its name.\<close>

definition arg_key :: "arg \<Rightarrow> string" where
  "arg_key a =
    (case a of
       AStr t \<Rightarrow> t
     | ANum i \<Rightarrow> ToString (Num i)
     | ANet n \<Rightarrow> (case name n of Some t \<Rightarrow> t | None \<Rightarrow> ''undefined''))"

definition get :: "registry \<Rightarrow> arg \<Rightarrow> keys_arg \<Rightarrow> found" where
  "get reg a keys =
    (if (case a of ANet n \<Rightarrow> n \<in> set (networks reg) | _ \<Rightarrow> False)
     then (case a of ANet n \<Rightarrow> Found n | _ \<Rightarrow> NotFound)
     else
       case key_list keys of
         Some ks \<Rightarrow>
           (case find (\<lambda>n. list_ex (\<lambda>key. property_is n key a) ks) (networks reg) of
              Some n \<Rightarrow> Found n
            | None \<Rightarrow> NotFound)
       | None \<Rightarrow>
           (case networkMaps_at (networkMaps reg) (arg_key a) of
              Own [] \<Rightarrow> EmptyArray
            | Own (n # ns) \<Rightarrow> Found n
            | Inherited k (Some len) \<Rightarrow> if 1 \<le> len then NotFound else Member k
            | Inherited k None \<Rightarrow> Member k
            | Missing \<Rightarrow> NotFound))"

subsection \<open>The networks the module registers\<close>

text \<open>\<^verbatim>\<open>String(is)\<close>, the source of the function \<^verbatim>\<open>is\<close>.\<close>

definition is_source :: string where
  "is_source = ''function is(str) {'' @ [CHR 0x0A] @
     ''  return this.name == str || this.alias == str;'' @ [CHR 0x0A] @ ''}''"

definition livenet_data :: netdata where
  "livenet_data = NetData
    \<lparr> name = Some ''livenet'', alias' = Some ''mainnet'', is_fn = Some is_source,
      pubkeyhash = Some 0x1e, privatekey = Some 0x9e, scripthash = Some 0x16,
      xpubkey = Some 0x0488b21e, xprivkey = Some 0x0488ade4, networkMagic = Some 0xc0c0c0c0,
      port = Some 22556,
      dnsSeeds = Some [''seed.multidoge.org'', ''seed2.multidoge.org'', ''veryseed.denarius.pro'',
        ''muchseed.denarius.pro'', ''suchseed.denarius.pro'', ''seed.dogecoin.com'',
        ''seed.dogechain.info'', ''seed.mophides.com'', ''seed.dglibrary.org''] \<rparr>
    None"

text \<open>An object that sets no property: the variant below sets four.\<close>

definition no_fields :: fields where
  "no_fields =
    \<lparr> name = None, alias' = None, is_fn = None, pubkeyhash = None, privatekey = None,
      scripthash = None, xpubkey = None, xprivkey = None, networkMagic = None, port = None,
      dnsSeeds = None \<rparr>"

definition testnet_data :: netdata where
  "testnet_data = NetData
    \<lparr> name = Some ''testnet'', alias' = Some ''testnet'', is_fn = Some is_source,
      pubkeyhash = Some 0x71, privatekey = Some 0xf1, scripthash = Some 0xc4,
      xpubkey = Some 0x043587cf, xprivkey = Some 0x04358394, networkMagic = Some 0xfcc1b7dc,
      port = Some 44556, dnsSeeds = Some [''testseed.jrn.me.uk''] \<rparr>
    (Some [NetData
       (no_fields\<lparr> name := Some ''testnet3'', networkMagic := Some 0xfcc1b7dc,
          port := Some 44556, dnsSeeds := Some [''testseed.jrn.me.uk''] \<rparr>)
       None])"

definition regtest_data :: netdata where
  "regtest_data = NetData
    \<lparr> name = Some ''regtest'', alias' = Some ''dev'', is_fn = Some is_source,
      pubkeyhash = Some 0x6f, privatekey = Some 0xef, scripthash = Some 0xc4,
      xpubkey = Some 0x043587cf, xprivkey = Some 0x04358394, networkMagic = Some 0xfabfb5da,
      port = Some 18444, dnsSeeds = Some [] \<rparr>
    None"

text \<open>The registry once the module is loaded: the three calls of \<^verbatim>\<open>addNetwork\<close> at its
  top level, in their order.\<close>

definition module_registry :: registry where
  "module_registry =
     snd (addNetwork regtest_data (snd (addNetwork testnet_data
       (snd (addNetwork livenet_data empty_registry)))))"

subsection \<open>What a registry built by \<^verbatim>\<open>add\<close> looks like\<close>

text \<open>The property keys a network is indexed under, one for each of its values that is
  neither \<^verbatim>\<open>undefined\<close> nor an object, in the order of \<^verbatim>\<open>Object.values\<close>.\<close>

definition keys_of :: "Network \<Rightarrow> string list" where
  "keys_of n = map property_key (filter indexed (Object_values n))"

text \<open>The networks of a list that sit under the key \<open>k\<close>, in the list's order, each as many
  times as it has values with that key.\<close>

definition entries :: "Network list \<Rightarrow> string \<Rightarrow> Network list" where
  "entries nets k = concat (map (\<lambda>n. map (\<lambda>k'. n) (filter (\<lambda>k'. k' = k) (keys_of n))) nets)"

text \<open>\<^verbatim>\<open>networkMaps\<close> agrees with \<^verbatim>\<open>networks\<close>: under every key it holds exactly those
  entries, and no empty array.\<close>

definition consistent :: "registry \<Rightarrow> bool" where
  "consistent reg \<longleftrightarrow>
     (\<forall>k. networkMaps reg k =
            (if entries (networks reg) k = [] then None else Some (entries (networks reg) k)))"

text \<open>The properties of the networks one call registers: those of \<^verbatim>\<open>data\<close>, then for each
  variant in turn those of the call \<^verbatim>\<open>addNetwork({...data, variants: undefined, ...variant})\<close>.\<close>

function expand :: "netdata \<Rightarrow> fields list" where
  "expand data = props data # concat (map (\<lambda>v. expand (spread data v)) (variants_or_empty data))"
  by pat_completeness auto
termination
proof (relation "measure weight", goal_cases)
  case 1
  show ?case by simp
next
  case (2 data v)
  have "weight (spread data v) = weight v"
    by (cases v) (simp add: spread_def)
  moreover from 2 have "weight v \<le> sum_list (map weight (variants_or_empty data))"
    by (simp add: member_le_sum_list)
  moreover have "sum_list (map weight (variants_or_empty data)) < weight data"
    by (cases data) (simp add: variants_or_empty_def split: option.splits)
  ultimately show ?case by simp
qed

declare expand.simps [simp del]

text \<open>The Network objects made of a list of properties, numbered from \<open>a\<close>.\<close>

definition registered :: "nat \<Rightarrow> fields list \<Rightarrow> Network list" where
  "registered a fs = map (\<lambda>(i, f). new_Network i f) (zip [a ..< a + length fs] fs)"

text \<open>The values of the properties \<^verbatim>\<open>name\<close>, \<^verbatim>\<open>alias\<close>, \<^verbatim>\<open>pubkeyhash\<close>, \<^verbatim>\<open>privatekey\<close>,
  \<^verbatim>\<open>scripthash\<close>, \<^verbatim>\<open>xpubkey\<close>, \<^verbatim>\<open>xprivkey\<close> and \<^verbatim>\<open>port\<close> a network has, as arguments
  of \<^verbatim>\<open>get\<close>.\<close>

definition present :: "('b \<Rightarrow> arg) \<Rightarrow> 'b option \<Rightarrow> arg list" where
  "present c x = (case x of None \<Rightarrow> [] | Some v \<Rightarrow> [c v])"

definition field_values :: "Network \<Rightarrow> arg list" where
  "field_values n =
     present AStr (name n) @ present AStr (alias' n) @ present ANum (pubkeyhash n)
     @ present ANum (privatekey n) @ present ANum (scripthash n) @ present ANum (xpubkey n)
     @ present ANum (xprivkey n) @ present ANum (port n)"

text \<open>No key the networks of a call are indexed under is the name of a member of
  \<^verbatim>\<open>Object.prototype\<close>: the case in which \<^verbatim>\<open>addNetwork\<close> does not throw.\<close>

definition clear_of_prototype :: "netdata \<Rightarrow> bool" where
  "clear_of_prototype data \<longleftrightarrow>
     list_all (\<lambda>f. list_all (\<lambda>k. map_of Object_prototype k = None) (keys_of (new_Network 0 f)))
       (expand data)"

section \<open>A concrete set of collaborators\<close>

text \<open>
  To run the model on concrete inputs the collaborators are instantiated: base64 is
  the encoding of RFC 4648 as \<^verbatim>\<open>Buffer\<close> reads and writes it, the rest are small stand-ins
  (an engine that keeps its derivation path and its snapshot and checks the path when
  the session starts, an assembler whose output shows each of its arguments, a cipher
  that reverses the bytes, a channel that passes messages on).
\<close>

definition b64_char :: "nat \<Rightarrow> char" where
  "b64_char i =
     (if i < 26 then char_of (65 + i)
      else if i < 52 then char_of (71 + i)
      else if i < 62 then char_of (i - 4)
      else if i = 62 then CHR ''+'' else CHR ''/'')"

definition b64_value :: "char \<Rightarrow> nat option" where
  "b64_value c =
     (let k = (of_char c :: nat) in
      if 65 \<le> k \<and> k \<le> 90 then Some (k - 65)
      else if 97 \<le> k \<and> k \<le> 122 then Some (k - 71)
      else if 48 \<le> k \<and> k \<le> 57 then Some (k + 4)
      else if c = CHR ''+'' \<or> c = CHR ''-'' then Some 62
      else if c = CHR ''/'' \<or> c = CHR ''_'' then Some 63
      else None)"

text \<open>The value of a byte.\<close>

definition byte :: "char \<Rightarrow> nat" where
  "byte c = of_char c"

fun base64_encode :: "buffer \<Rightarrow> string" where
  "base64_encode (a # b # c # rest) =
     [b64_char (byte a div 4), b64_char ((byte a mod 4) * 16 + byte b div 16),
      b64_char ((byte b mod 16) * 4 + byte c div 64), b64_char (byte c mod 64)]
     @ base64_encode rest"
| "base64_encode [a, b] =
     [b64_char (byte a div 4), b64_char ((byte a mod 4) * 16 + byte b div 16),
      b64_char ((byte b mod 16) * 4), CHR ''='']"
| "base64_encode [a] =
     [b64_char (byte a div 4), b64_char ((byte a mod 4) * 16), CHR ''='', CHR ''='']"
| "base64_encode [] = []"

fun decode_sextets :: "nat list \<Rightarrow> buffer" where
  "decode_sextets (p # q # r # t # rest) =
     [char_of (p * 4 + q div 16), char_of ((q mod 16) * 16 + r div 4),
      char_of ((r mod 4) * 64 + t)] @ decode_sextets rest"
| "decode_sextets [p, q, r] = [char_of (p * 4 + q div 16), char_of ((q mod 16) * 16 + r div 4)]"
| "decode_sextets [p, q] = [char_of (p * 4 + q div 16)]"
| "decode_sextets _ = []"

text \<open>\<^verbatim>\<open>Buffer.from(t, 'base64')\<close>: the first padding character ends the input, a
  character outside the alphabet is skipped.\<close>

definition sextets :: "string \<Rightarrow> nat list" where
  "sextets t = List.map_filter b64_value (takeWhile (\<lambda>c. c \<noteq> CHR ''='') t)"

definition base64_decode :: "string \<Rightarrow> buffer" where
  "base64_decode t = decode_sextets (sextets t)"

text \<open>The stand-in engine: the path it was made with and the snapshot of its session,
  if it has one. It takes the paths \<^verbatim>\<open>m\<close>, \<^verbatim>\<open>m/0\<close>, \<^verbatim>\<open>m/44'/0\<close> and so on.\<close>

record demo_dsg =
  dsg_path :: string
  dsg_snapshot :: "buffer option"

definition path_ok :: "string \<Rightarrow> bool" where
  "path_ok p \<longleftrightarrow>
     take 1 p = ''m'' \<and> list_all (\<lambda>c. c = CHR ''/'' \<or> c = CHR 0x27 \<or> is_digit 10 c) (drop 1 p)"

definition demo_env :: "(string, string, demo_dsg, string) env" where
  "demo_env =
    \<lparr> PrivateKey = (\<lambda>k. if k = [] then Inl (Thrown ''Invalid private key'') else Inr k),
      pk_toString_hex = (\<lambda>pk. pk),
      pk_toWIF = (\<lambda>pk. ''wif-'' @ pk),
      pk_publicKey = (\<lambda>pk. ''pub-'' @ pk),
      key_toString_hex = (\<lambda>k. k),
      key_string = (\<lambda>k. Some k),
      Dsg = (\<lambda>share pid path hash. Inr \<lparr> dsg_path = path, dsg_snapshot = None \<rparr>),
      dsg_init = (\<lambda>d. if path_ok (dsg_path d)
                        then (Inr ''round1'', d\<lparr> dsg_snapshot := Some ''init'' \<rparr>)
                        else (Inl (Thrown ''Invalid derivation path''), d)),
      dsg_handleIncomingMessages = (\<lambda>d msg.
         case dsg_snapshot d of
           None \<Rightarrow> (Inl (Thrown ''Session not initialized''), d)
         | Some b \<Rightarrow> (Inr msg, d\<lparr> dsg_snapshot := Some (b @ ''+'') \<rparr>)),
      dsg_setSession = (\<lambda>d bytes. Inr (d\<lparr> dsg_snapshot := Some bytes \<rparr>)),
      dsgSessionBytes = dsg_snapshot,
      dsgSession_toBytes = (\<lambda>d. None),
      dsg_signature = (\<lambda>d. case dsg_snapshot d of None \<Rightarrow> [] | Some b \<Rightarrow> b),
      serializeBroadcastMessage = (\<lambda>x. Inr x),
      serializeMessages = (\<lambda>x. Inr \<lparr> p2pMessages = [x], broadcastMessages = [] \<rparr>),
      deserializeMessages = (\<lambda>x. Inr x),
      encryptAndAuthOutgoingMessages = (\<lambda>msgs keys pk. Inr msgs),
      decryptAndVerifyIncomingMessages = (\<lambda>msgs pk. Inr ''incoming''),
      verifyAndConvertDklsSignature = (\<lambda>hash raw chain path.
         Inr (''1:'' @ chain @ '':'' @ toString_hex (take 2 hash) @ '':'' @ raw @ path)),
      encrypt = (\<lambda>b pub pk. Inr (rev b)),
      decrypt = (\<lambda>b pub pk. Inr (rev b)),
      toBase64 = base64_encode,
      fromBase64 = base64_decode \<rparr>"

text \<open>Party 0 of a 2-of-3 session over the all-zero hash, and the envelope a peer sends
  for round \<open>k\<close>.\<close>

definition demo_params :: "string params" where
  "demo_params =
    \<lparr> p_keychain = Value \<lparr> privateKeyShare = ''share'', commonKeyChain = ''chain'' \<rparr>,
      p_partyId = Value (Num 0), p_n = Value (Num 3), p_m = Value (Num 2),
      p_derivationPath = Undefined, p_messageHash = Value (replicate 32 (CHR 0x00)),
      p_authKey = Value ''key'', p_round = Undefined \<rparr>"

definition peer_envelope :: "int \<Rightarrow> string envelope" where
  "peer_envelope k =
    \<lparr> p2pMessages = [], broadcastMessages = [''hello''], msg_round = Num k,
      msg_partyId = Num 1, publicKey = ''pub-peer'' \<rparr>"

text \<open>The session the constructor makes of these arguments, and the same session after
  \<^verbatim>\<open>initJoin\<close>.\<close>

definition demo_session :: "(string, demo_dsg) Sign" where
  "demo_session =
    \<lparr> keychain = \<lparr> privateKeyShare = ''share'', commonKeyChain = ''chain'' \<rparr>,
      partyId = Num 0, partySize = Num 3, minSigners = Num 2, derivationPath = ''m'',
      messageHash = replicate 32 (CHR 0x00), round = Num 0, authKey = ''key'',
      dsg = \<lparr> dsg_path = ''m'', dsg_snapshot = None \<rparr>, signature = None \<rparr>"

definition demo_joined :: "(string, demo_dsg) Sign" where
  "demo_joined = demo_session\<lparr> round := Num 1, dsg := \<lparr> dsg_path = ''m'', dsg_snapshot = Some ''init'' \<rparr> \<rparr>"

text \<open>The session after the four rounds that follow, each with the envelope of the one
  peer a 2-of-3 signing needs, and the signature the stand-in assembler makes of it.\<close>

definition demo_complete :: "(string, demo_dsg) Sign" where
  "demo_complete =
     demo_session\<lparr> round := Num 5, dsg := \<lparr> dsg_path = ''m'', dsg_snapshot = Some ''init++++'' \<rparr> \<rparr>"

definition demo_signature :: signature where
  "demo_signature =
     \<lparr> sig_r = ''0x636861696e'', sig_s = ''0x0000'', sig_v = Num 1,
       sig_pubKey = Some ''init++++m'' \<rparr>"

section \<open>Facts about numbers and strings\<close>

lemma digit_val_digit_char: "d < 10 \<Longrightarrow> digit_val (digit_char d) = Some d"
  by (simp add: digit_val_def digit_char_def Let_def)

lemma is_digit_digit_char: "d < 10 \<Longrightarrow> is_digit 10 (digit_char d)"
  by (simp add: is_digit_def digit_val_digit_char)

lemma string_of_nat_digits: "c \<in> set (string_of_nat n) \<Longrightarrow> is_digit 10 c"
proof (induction n rule: string_of_nat.induct)
  case (1 n)
  show ?case
  proof (cases "n < 10")
    case True
    with "1.prems" show ?thesis
      by (subst (asm) string_of_nat.simps) (simp add: is_digit_digit_char)
  next
    case False
    have "is_digit 10 (digit_char (n mod 10))"
      by (rule is_digit_digit_char) simp
    with False "1.prems" "1.IH" show ?thesis
      by (subst (asm) string_of_nat.simps) auto
  qed
qed

lemma string_of_nat_nonempty: "string_of_nat n \<noteq> []"
  by (subst string_of_nat.simps) simp

lemma digits_value_snoc:
  "digits_value r (xs @ [c]) = digits_value r xs * r + (case digit_val c of None \<Rightarrow> 0 | Some d \<Rightarrow> d)"
  by (simp add: digits_value_def)

lemma digits_value_string_of_nat: "digits_value 10 (string_of_nat n) = n"
proof (induction n rule: string_of_nat.induct)
  case (1 n)
  show ?case
  proof (cases "n < 10")
    case True
    then show ?thesis
      by (subst string_of_nat.simps) (simp add: digits_value_def digit_val_digit_char)
  next
    case False
    with 1 show ?thesis
      by (subst string_of_nat.simps) (simp add: digits_value_snoc digit_val_digit_char)
  qed
qed

lemma ws_seqs_heads: "w \<in> set ws_seqs \<Longrightarrow> w \<noteq> [] \<and> \<not> is_digit 10 (hd w) \<and> hd w \<noteq> CHR ''-''"
  by (auto simp: ws_seqs_def is_digit_def digit_val_def)

lemma ws_len_no_ws: "is_digit 10 c \<or> c = CHR ''-'' \<Longrightarrow> ws_len (c # cs) = 0"
proof -
  assume c: "is_digit 10 c \<or> c = CHR ''-''"
  have "filter (\<lambda>w. take (length w) (c # cs) = w) ws_seqs = []"
  proof (simp only: filter_empty_conv, intro ballI notI)
    fix w assume w: "w \<in> set ws_seqs" and t: "take (length w) (c # cs) = w"
    from ws_seqs_heads [OF w] obtain x xs where "w = x # xs" "\<not> is_digit 10 x" "x \<noteq> CHR ''-''"
      by (cases w) auto
    with t c show False by auto
  qed
  then show ?thesis by (simp add: ws_len_def)
qed

lemma strip_ws_id: "ws_len s = 0 \<Longrightarrow> strip_ws s = s"
  by (cases s) (simp_all add: strip_ws.simps)

lemma takeWhile_string_of_nat: "takeWhile (is_digit 10) (string_of_nat n) = string_of_nat n"
  by (simp add: takeWhile_eq_all_conv string_of_nat_digits)

lemma not_hex_string_of_nat:
  "take 2 (string_of_nat n) \<noteq> ''0x'' \<and> take 2 (string_of_nat n) \<noteq> ''0X''"
proof -
  have x: "\<not> is_digit 10 (CHR ''x'')" "\<not> is_digit 10 (CHR ''X'')"
    by (simp_all add: is_digit_def digit_val_def)
  have "\<forall>c \<in> set (take 2 (string_of_nat n)). is_digit 10 c"
    using set_take_subset [of 2 "string_of_nat n"] string_of_nat_digits by blast
  with x show ?thesis by auto
qed

lemma parse_unsigned_string_of_nat: "parse_unsigned (string_of_nat n) = Some n"
  using not_hex_string_of_nat [of n]
  by (simp add: parse_unsigned_def Let_def takeWhile_string_of_nat string_of_nat_nonempty
      digits_value_string_of_nat)

lemma parse_unsigned_leading:
  assumes "d < 10" and "d = 0 \<longrightarrow> rest = []" and "rest \<noteq> [] \<longrightarrow> \<not> is_digit 10 (hd rest)"
  shows "parse_unsigned (digit_char d # rest) = Some d"
proof -
  have t: "takeWhile (is_digit 10) (digit_char d # rest) = [digit_char d]"
    using assms(1,3) by (cases rest) (simp_all add: is_digit_digit_char)
  have x: "\<not> is_digit 10 (CHR ''x'')" "\<not> is_digit 10 (CHR ''X'')"
    by (simp_all add: is_digit_def digit_val_def)
  have "take 2 (digit_char d # rest) \<noteq> ''0x'' \<and> take 2 (digit_char d # rest) \<noteq> ''0X''"
  proof (cases rest)
    case Nil
    then show ?thesis by simp
  next
    case (Cons c cs)
    with assms(2) have "digit_val (digit_char d) \<noteq> digit_val (CHR ''0'')"
      using assms(1) by (simp add: digit_val_digit_char) (simp add: digit_val_def)
    then have "digit_char d \<noteq> CHR ''0''" by auto
    with Cons show ?thesis by simp
  qed
  with t assms(1) show ?thesis
    by (simp add: parse_unsigned_def Let_def digits_value_def digit_val_digit_char
        del: takeWhile.simps take_Cons_numeral)
qed

lemma string_of_nat_hd:
  "0 < n \<Longrightarrow> \<exists>d cs. string_of_nat n = digit_char d # cs \<and> 1 \<le> d \<and> d \<le> 9"
proof (induction n rule: string_of_nat.induct)
  case (1 n)
  show ?case
  proof (cases "n < 10")
    case True
    with "1.prems" show ?thesis
      by (subst string_of_nat.simps) auto
  next
    case False
    then have "0 < n div 10" by simp
    from "1.IH" [OF False this] obtain d cs
      where "string_of_nat (n div 10) = digit_char d # cs" "1 \<le> d" "d \<le> 9"
      by blast
    with False show ?thesis
      by (subst string_of_nat.simps) auto
  qed
qed

lemma digit_char_not_zero: "1 \<le> d \<Longrightarrow> d \<le> 9 \<Longrightarrow> digit_char d \<noteq> CHR ''0''"
proof
  assume d: "1 \<le> d" "d \<le> 9" and eq: "digit_char d = CHR ''0''"
  from d have "digit_val (digit_char d) = Some d" by (simp add: digit_val_digit_char)
  moreover have "digit_val (CHR ''0'') = Some 0" by (simp add: digit_val_def)
  ultimately show False using d eq by simp
qed

lemma dropWhile_snoc: "\<not> P c \<Longrightarrow> dropWhile P (xs @ [c]) = dropWhile P xs @ [c]"
  by (induction xs) simp_all

lemma exponent_form_shape:
  assumes "0 < v"
  shows "\<exists>d rest. exponent_form v = digit_char d # rest \<and> 1 \<le> d \<and> d \<le> 9 \<and>
           rest \<noteq> [] \<and> \<not> is_digit 10 (hd rest)"
proof -
  from string_of_nat_hd [OF assms] obtain d cs
    where ds: "string_of_nat v = digit_char d # cs" and d: "1 \<le> d" "d \<le> 9"
    by blast
  define t where "t = rev (dropWhile (\<lambda>c. c = CHR ''0'') (rev cs))"
  have s: "rev (dropWhile (\<lambda>c. c = CHR ''0'') (rev (string_of_nat v))) = digit_char d # t"
    unfolding ds t_def using digit_char_not_zero [OF d] by (simp add: dropWhile_snoc)
  define rest where "rest = (if t \<noteq> [] then CHR ''.'' # t else []) @ ''e+'' @
      string_of_nat (length (string_of_nat v) - 1)"
  have e: "exponent_form v = digit_char d # rest"
    unfolding exponent_form_def Let_def s rest_def by simp
  have "\<not> is_digit 10 (CHR ''.'')" "\<not> is_digit 10 (CHR ''e'')"
    by (simp_all add: is_digit_def digit_val_def)
  then have "rest \<noteq> [] \<and> \<not> is_digit 10 (hd rest)"
    unfolding rest_def by simp
  with e d show ?thesis by blast
qed

lemma parse_unsigned_exponent_form:
  "0 < v \<Longrightarrow> \<exists>d. parse_unsigned (exponent_form v) = Some d \<and> 1 \<le> d \<and> d \<le> 9"
proof -
  assume "0 < v"
  from exponent_form_shape [OF this] obtain d rest
    where e: "exponent_form v = digit_char d # rest" "1 \<le> d" "d \<le> 9"
      "rest \<noteq> []" "\<not> is_digit 10 (hd rest)"
    by blast
  then have "parse_unsigned (digit_char d # rest) = Some d"
    by (intro parse_unsigned_leading) simp_all
  with e show ?thesis by auto
qed

lemma string_of_magnitude_head:
  "\<exists>c cs. string_of_magnitude a = c # cs \<and> is_digit 10 c"
proof (cases "a < 10 ^ 21")
  case True
  obtain c cs where eq: "string_of_nat (nat a) = c # cs"
    using string_of_nat_nonempty [of "nat a"] by (cases "string_of_nat (nat a)") auto
  then have "is_digit 10 c"
    using string_of_nat_digits [of c "nat a"] by simp
  with True eq show ?thesis by (simp add: string_of_magnitude_def)
next
  case False
  then have "0 < nat a" by simp
  from exponent_form_shape [OF this] False show ?thesis
    by (auto simp: string_of_magnitude_def is_digit_digit_char)
qed

lemma parse_unsigned_magnitude:
  assumes "0 \<le> a"
  shows "\<exists>d. parse_unsigned (string_of_magnitude a) = Some d \<and>
     (if a < 10 ^ 21 then int d = a else 1 \<le> d \<and> d \<le> 9)"
proof (cases "a < 10 ^ 21")
  case True
  with assms show ?thesis by (simp add: string_of_magnitude_def parse_unsigned_string_of_nat)
next
  case False
  then have "0 < nat a" by simp
  from parse_unsigned_exponent_form [OF this] False show ?thesis
    by (simp add: string_of_magnitude_def)
qed

text \<open>\<^verbatim>\<open>parseInt(String(x))\<close>: \<open>x\<close> below \<^verbatim>\<open>1e21\<close>, else its first digit with its sign.\<close>

lemma parseInt_ToString_cases:
  "\<exists>d. parseInt (ToString (Num i)) = Num (if i < 0 then - int d else int d) \<and>
     (if \<bar>i\<bar> < 10 ^ 21 then int d = \<bar>i\<bar> else 1 \<le> d \<and> d \<le> 9)"
proof -
  define a where "a = \<bar>i\<bar>"
  have a: "0 \<le> a" by (simp add: a_def)
  obtain c cs where eq: "string_of_magnitude a = c # cs" and c: "is_digit 10 c"
    using string_of_magnitude_head [of a] by blast
  have ws: "ws_len (string_of_magnitude a) = 0"
    unfolding eq using c by (simp add: ws_len_no_ws)
  have "\<not> is_digit 10 (CHR ''-'')" "\<not> is_digit 10 (CHR ''+'')"
    by (simp_all add: is_digit_def digit_val_def)
  with c have sign: "take 1 (string_of_magnitude a) \<noteq> ''-''" "take 1 (string_of_magnitude a) \<noteq> ''+''"
    unfolding eq by auto
  obtain d where d: "parse_unsigned (string_of_magnitude a) = Some d"
    "if a < 10 ^ 21 then int d = a else 1 \<le> d \<and> d \<le> 9"
    using parse_unsigned_magnitude [OF a] by blast
  have p: "parseInt (ToString (Num i)) = Num (if i < 0 then - int d else int d)"
  proof (cases "i < 0")
    case True
    then have v: "- i = a" by (simp add: a_def)
    from True show ?thesis
      by (simp add: v parseInt_def strip_ws_id ws_len_no_ws d(1))
  next
    case False
    then have v: "i = a" by (simp add: a_def)
    from False ws sign show ?thesis
      unfolding v [symmetric] using d(1) [folded v]
      by (simp add: parseInt_def strip_ws_id)
  qed
  from d(2) p show ?thesis
    unfolding a_def by blast
qed

lemma parseInt_ToString: "\<bar>i\<bar> < 10 ^ 21 \<Longrightarrow> parseInt (ToString (Num i)) = Num i"
  using parseInt_ToString_cases [of i] by (auto simp del: ToString.simps)

lemma parseInt_number_Num: "\<bar>i\<bar> < 10 ^ 21 \<Longrightarrow> parseInt_number (Num i) = Num i"
  by (simp add: parseInt_number_def parseInt_ToString del: ToString.simps)


section \<open>Facts about base64\<close>



















section \<open>Facts about the signing session\<close>

subsection \<open>The constructor\<close>

lemma parseInt_undefined: "parseInt ''undefined'' = NaN"
  by (simp add: parseInt_def strip_ws.simps ws_len_def ws_seqs_def parse_unsigned_def is_digit_def digit_val_def)

lemma parseInt_null: "parseInt ''null'' = NaN"
  by (simp add: parseInt_def strip_ws.simps ws_len_def ws_seqs_def parse_unsigned_def is_digit_def digit_val_def)

lemma num_le_NumD: "num_le (Num a) x \<Longrightarrow> \<exists>b. x = Num b \<and> a \<le> b"
  by (cases x) auto

lemma num_less_NumD: "num_less (Num a) x \<Longrightarrow> \<exists>b. x = Num b \<and> a < b"
  by (cases x) auto

lemma num_less_NumD2: "num_less x (Num b) \<Longrightarrow> \<exists>a. x = Num a \<and> a < b"
  by (cases x) auto

lemma num_le_NumD2: "num_le x (Num b) \<Longrightarrow> \<exists>a. x = Num a \<and> a \<le> b"
  by (cases x) auto

lemma parseInt_number_NaN: "parseInt_number NaN = NaN"
  by (simp add: parseInt_number_def parseInt_def strip_ws.simps ws_len_def ws_seqs_def parse_unsigned_def is_digit_def digit_val_def)

lemma round_or_zero_simps [simp]:
  "round_or_zero Undefined = Num 0"
  "round_or_zero Null = Num 0"
  "round_or_zero (Value NaN) = Num 0"
  "0 \<le> r \<Longrightarrow> r \<le> 5 \<Longrightarrow> round_or_zero (Value (Num r)) = Num r"
  by (auto simp: round_or_zero_def parseInt_undefined parseInt_null parseInt_number_NaN
      parseInt_number_Num)

lemma path_or_root_simps [simp]:
  "path_or_root Undefined = ''m''"
  "path_or_root Null = ''m''"
  "path_or_root (Value []) = ''m''"
  "dp \<noteq> [] \<Longrightarrow> path_or_root (Value dp) = dp"
  by (simp_all add: path_or_root_def)

lemma Sign_new_InrD:
  assumes "Sign_new E p = Inr s"
  shows "\<exists>kc pid n m mh ak d.
    p_keychain p = Value kc \<and> p_partyId p = Value (Num pid) \<and> p_n p = Value (Num n) \<and>
    p_m p = Value (Num m) \<and> p_messageHash p = Value mh \<and> p_authKey p = Value ak \<and>
    0 \<le> pid \<and> pid < n \<and> 1 < n \<and> 0 < m \<and> num_le (Num m) (parseInt_number (Num n)) \<and>
    length mh = 32 \<and>
    (case p_derivationPath p of Value dp \<Rightarrow> take 1 dp = ''m'' | _ \<Rightarrow> True) \<and>
    (case p_round p of Value r \<Rightarrow> num_le (Num 0) r \<and> num_le r (Num 5) | _ \<Rightarrow> True) \<and>
    PrivateKey E ak = Inr (authKey s) \<and> recognized E (authKey s) ak \<and>
    Dsg E (privateKeyShare kc) (parseInt_number (Num pid)) (derivationPath s) mh = Inr d \<and>
    s = \<lparr> keychain = kc, partyId = parseInt_number (Num pid),
          partySize = parseInt_number (Num n), minSigners = parseInt_number (Num m),
          derivationPath = path_or_root (p_derivationPath p), messageHash = mh,
          round = round_or_zero (p_round p), authKey = authKey s, dsg = d, signature = None \<rparr>"
proof -
  from assms obtain kc pid0 n0 m0 mh ak where req:
    "p_keychain p = Value kc" "p_partyId p = Value pid0" "p_n p = Value n0"
    "p_m p = Value m0" "p_messageHash p = Value mh" "p_authKey p = Value ak"
    by (auto simp: Sign_new_def required_def split: nullable.splits)
  from assms req have a1: "num_le (Num 0) pid0" "num_less pid0 n0" "num_less (Num 1) n0"
    by (auto simp: Sign_new_def required_def assert_def Let_def split: if_splits)
  then obtain pid n where nums: "pid0 = Num pid" "n0 = Num n" "0 \<le> pid" "pid < n" "1 < n"
    by (cases pid0; cases n0) auto
  from assms req nums have a2: "num_less (Num 0) m0" "num_le m0 (parseInt_number (Num n))"
    by (auto simp: Sign_new_def required_def assert_def Let_def split: if_splits)
  then obtain m where m: "m0 = Num m" "0 < m"
    by (cases m0) auto
  from assms req nums m a2 show ?thesis
    unfolding Sign_new_def required_def assert_def
    by (auto simp: Let_def split: if_splits sum.splits)
qed



subsection \<open>The methods\<close>

lemma session_inv_update [simp]:
  "session_inv E (s\<lparr> dsg := d \<rparr>) = session_inv E s"
  "session_inv E (s\<lparr> signature := g \<rparr>) = session_inv E s"
  by (simp_all add: session_inv_def)

lemma initJoin_cases:
  "(\<exists>e d. initJoin E s = (Inl e, s) \<or> initJoin E s = (Inl e, s\<lparr> dsg := d \<rparr>)) \<or>
   (\<exists>msg d. round s = Num 0 \<and> msg_round msg = round s \<and>
      initJoin E s = (Inr msg, s\<lparr> dsg := d, round := Num 1 \<rparr>))"
  by (cases "round s")
     (auto simp: initJoin_def formatMessage_def Let_def split: prod.splits sum.splits)

lemma nextRound_cases:
  "(\<exists>e d. nextRound E s arg = (Inl e, s) \<or> nextRound E s arg = (Inl e, s\<lparr> dsg := d \<rparr>)) \<or>
   (\<exists>msg d r. round s = Num r \<and> 0 < r \<and> r < 5 \<and> msg_round msg = round s \<and>
      nextRound E s arg = (Inr msg, s\<lparr> dsg := d, round := Num (r + 1) \<rparr>))"
  by (cases "round s"; cases arg)
     (auto simp: nextRound_def formatMessage_def Let_def split: prod.splits sum.splits)









subsection \<open>The concrete session\<close>

lemma demo_new: "Sign_new demo_env demo_params = Inr demo_session"
  by (simp add: Sign_new_def required_def assert_def Let_def parseInt_number_Num
      demo_params_def demo_env_def demo_session_def recognized_def)

lemma path_ok_root: "path_ok ''m''"
  by (simp add: path_ok_def)

lemma demo_initJoin:
  "initJoin demo_env demo_session =
     (Inr \<lparr> p2pMessages = [], broadcastMessages = [''round1''], msg_round = Num 0,
            msg_partyId = Num 0, publicKey = ''pub-key'' \<rparr>, demo_joined)"
  by (simp add: initJoin_def formatMessage_def demo_env_def demo_session_def demo_joined_def
      path_ok_root)

lemma demo_reachable: "reachable demo_env demo_session" "reachable demo_env demo_joined"
proof -
  show a: "reachable demo_env demo_session"
    using demo_new by (rule reachable.constructed)
  from reachable.joined [OF a] show "reachable demo_env demo_joined"
    by (simp add: demo_initJoin)
qed

lemma nextRound_failure_keeps_round:
  "fst (nextRound E s arg) = Inl e \<Longrightarrow> round (snd (nextRound E s arg)) = round s"
  using nextRound_cases [of E s arg] by (elim disjE exE conjE) simp_all

lemma initJoin_failure_keeps_round:
  "fst (initJoin E s) = Inl e \<Longrightarrow> round (snd (initJoin E s)) = round s"
  using initJoin_cases [of E s] by (elim disjE exE conjE) simp_all

lemma nextRound_assertions:
  assumes "\<not> (num_eq (Num (int (length msgs))) (num_add (minSigners s) (- 1))
      \<and> list_all (\<lambda>msg. num_eq (msg_round msg) (num_add (round s) (- 1))) msgs
      \<and> list_all (\<lambda>msg. \<not> num_eq (msg_partyId msg) (partyId s)) msgs)"
  shows "\<exists>reason. nextRound E s (Array msgs) = (Inl (AssertionError reason), s)"
proof (cases "num_less (Num 0) (round s) \<and> num_less (round s) (Num 5)")
  case False
  then show ?thesis by (auto simp: nextRound_def)
next
  case range: True
  show ?thesis
  proof (cases "num_eq (Num (int (length msgs))) (num_add (minSigners s) (- 1))")
    case False
    with range show ?thesis by (simp add: nextRound_def)
  next
    case len: True
    show ?thesis
    proof (cases "list_all (\<lambda>msg. num_eq (msg_round msg) (num_add (round s) (- 1))) msgs")
      case False
      with range len show ?thesis by (simp add: nextRound_def)
    next
      case True
      with assms len have "\<not> list_all (\<lambda>msg. \<not> num_eq (msg_partyId msg) (partyId s)) msgs"
        by simp
      with range len True show ?thesis by (simp add: nextRound_def)
    qed
  qed
qed

lemma demo_nextRound:
  "nextRound demo_env demo_joined (Array [peer_envelope 0]) =
     (Inr \<lparr> p2pMessages = [''incoming''], broadcastMessages = [], msg_round = Num 1,
            msg_partyId = Num 0, publicKey = ''pub-key'' \<rparr>,
      demo_joined\<lparr> round := Num 2, dsg := \<lparr> dsg_path = ''m'', dsg_snapshot = Some ''init+'' \<rparr> \<rparr>)"
  by (simp add: nextRound_def formatMessage_def demo_env_def demo_session_def demo_joined_def
      peer_envelope_def)

lemma isSignatureReady_iff: "isSignatureReady s \<longleftrightarrow> round s = Num 5"
  by (cases "round s") (simp_all add: isSignatureReady_def)

lemma complete_perform:
  assumes "round s = Num 5" and "signature s = Some g"
  shows "perform E s c = s"
proof (cases c)
  case InitJoin
  with assms show ?thesis by (simp add: initJoin_def)
next
  case (NextRound arg)
  with assms show ?thesis by (simp add: nextRound_def)
next
  case GetSignature
  with assms show ?thesis by (simp add: getSignature_def isSignatureReady_def)
next
  case Export
  then show ?thesis by simp
qed

lemma complete_run:
  assumes "round s = Num 5" and "signature s = Some g"
  shows "run E s calls = s"
  unfolding run_def using assms
  by (induction calls) (simp_all add: complete_perform)

lemma getSignature_not_ready:
  "\<not> isSignatureReady s \<Longrightarrow> getSignature E s = (Inl (AssertionError ''Signature not ready''), s)"
  by (simp add: getSignature_def)

lemma getSignature_InrD:
  assumes "getSignature E s = (Inr g, s')"
  shows "round s = Num 5" and "round s' = Num 5" and "signature s' = Some g"
    and "s' = s\<lparr> signature := Some g \<rparr>"
proof -
  have ready: "isSignatureReady s"
    using assms by (auto simp: getSignature_def split: if_splits)
  then show r: "round s = Num 5" by (simp add: isSignatureReady_iff)
  from assms ready show s': "s' = s\<lparr> signature := Some g \<rparr>"
    by (auto simp: getSignature_def Let_def split: option.splits sum.splits)
  from r s' show "round s' = Num 5" and "signature s' = Some g" by simp_all
qed

lemma getSignature_cached:
  "round s = Num 5 \<Longrightarrow> signature s = Some g \<Longrightarrow> getSignature E s = (Inr g, s)"
  by (simp add: getSignature_def isSignatureReady_def)

lemma getSignature_first:
  assumes "isSignatureReady s" and "signature s = None"
    and "verifyAndConvertDklsSignature E (messageHash s) (dsg_signature E (dsg s))
           (toString_hex (commonKeyChain (keychain s))) (derivationPath s) = Inr converted"
    and "g = \<lparr> sig_r = hex_field (element (split CHR '':'' converted) 1),
               sig_s = hex_field (element (split CHR '':'' converted) 2),
               sig_v = parseInt_opt (element (split CHR '':'' converted) 0),
               sig_pubKey = element (split CHR '':'' converted) 3 \<rparr>"
  shows "getSignature E s = (Inr g, s\<lparr> signature := Some g \<rparr>)"
  using assms by (simp add: getSignature_def Let_def)

lemma getSignature_first_throws:
  assumes "isSignatureReady s" and "signature s = None"
    and "verifyAndConvertDklsSignature E (messageHash s) (dsg_signature E (dsg s))
           (toString_hex (commonKeyChain (keychain s))) (derivationPath s) = Inl e"
  shows "getSignature E s = (Inl e, s)"
  using assms by (simp add: getSignature_def)

lemma demo_rounds:
  "run demo_env demo_session
     [InitJoin, NextRound (Array [peer_envelope 0]), NextRound (Array [peer_envelope 1]),
      NextRound (Array [peer_envelope 2]), NextRound (Array [peer_envelope 3])] = demo_complete"
  by (simp add: run_def initJoin_def nextRound_def formatMessage_def demo_env_def
      demo_session_def demo_complete_def peer_envelope_def path_ok_root)

lemma demo_complete_reachable: "reachable demo_env demo_complete"
proof -
  have "reachable demo_env (run demo_env demo_session calls)" for calls
  proof (induction calls rule: rev_induct)
    case Nil
    show ?case using demo_reachable(1) by (simp add: run_def)
  next
    case (snoc c calls)
    then show ?case
      by (cases c) (auto simp: run_def intro: reachable.intros)
  qed
  from this [of "[InitJoin, NextRound (Array [peer_envelope 0]), NextRound (Array [peer_envelope 1]),
      NextRound (Array [peer_envelope 2]), NextRound (Array [peer_envelope 3])]"]
  show ?thesis by (simp only: demo_rounds)
qed

lemma demo_converted:
  "verifyAndConvertDklsSignature demo_env (messageHash demo_complete)
     (dsg_signature demo_env (dsg demo_complete))
     (toString_hex (commonKeyChain (keychain demo_complete))) (derivationPath demo_complete)
   = Inr ''1:636861696e:0000:init++++m''"
  by code_simp

lemma parseInt_one: "parseInt ''1'' = Num 1"
  by code_simp





lemma Sign_new_nullish_path:
  "nullish dp \<Longrightarrow>
     Sign_new E (p\<lparr> p_derivationPath := dp \<rparr>) = Sign_new E (p\<lparr> p_derivationPath := Value ''m'' \<rparr>)"
  by (cases dp) (simp_all add: Sign_new_def)

lemma Sign_new_empty_path:
  "\<exists>reason. Sign_new E (p\<lparr> p_derivationPath := Value [] \<rparr>) = Inl (AssertionError reason)"
  by (auto simp: Sign_new_def required_def assert_def Let_def split: nullable.splits)

lemma Sign_new_path:
  "Sign_new E p = Inr s \<Longrightarrow> derivationPath s = path_or_root (p_derivationPath p)"
  by (drule Sign_new_InrD) (elim exE conjE, erule ssubst, simp)

lemma Sign_new_signature: "Sign_new E p = Inr s \<Longrightarrow> signature s = None"
  by (drule Sign_new_InrD) (elim exE conjE, erule ssubst, simp)
subsection \<open>Export and restore\<close>













subsection \<open>Paths with a colon\<close>











subsection \<open>The concrete collaborators\<close>









text \<open>A session the constructor makes of a number of parties below \<^verbatim>\<open>1e21\<close> keeps that
  number and the party id it was given.\<close>

lemma Sign_new_in_range:
  assumes "Sign_new E p = Inr s" and "p_n p = Value (Num n)" and "n < 10 ^ 21"
  shows "partySize s = Num n \<and> p_partyId p = Value (partyId s) \<and>
         num_less (Num 1) (partySize s) \<and> num_less (partyId s) (partySize s)"
proof -
  from Sign_new_InrD [OF assms(1)] assms(2) obtain kc pid m mh d where f:
    "p_partyId p = Value (Num pid)" "0 \<le> pid" "pid < n" "1 < n"
    "s = \<lparr> keychain = kc, partyId = parseInt_number (Num pid),
          partySize = parseInt_number (Num n), minSigners = parseInt_number (Num m),
          derivationPath = path_or_root (p_derivationPath p), messageHash = mh,
          round = round_or_zero (p_round p), authKey = authKey s, dsg = d, signature = None \<rparr>"
    by auto
  from f(2-4) assms(3) have "\<bar>pid\<bar> < 10 ^ 21" "\<bar>n\<bar> < 10 ^ 21" by simp_all
  note kept = this [THEN parseInt_number_Num]
  have "partyId s = Num pid" "partySize s = Num n"
    by (subst f(5), simp add: kept)+
  with f(1-4) show ?thesis by simp
qed
section \<open>Facts about the network registry\<close>

lemma entries_append: "entries (xs @ ys) k = entries xs k @ entries ys k"
  by (simp add: entries_def)

lemma entries_single: "entries [n] k = map (\<lambda>k'. n) (filter (\<lambda>k'. k' = k) (keys_of n))"
  by (simp add: entries_def)

lemma entries_Nil: "entries [] k = []"
  by (simp add: entries_def)

lemma index_value_Inr:
  assumes "index_value net v maps = Inr maps'"
  shows "maps' k =
    (if indexed v \<and> property_key v = k
     then Some ((case maps k of None \<Rightarrow> [] | Some l \<Rightarrow> l) @ [net])
     else maps k)"
  using assms
  by (auto simp: index_value_def networkMaps_at_def split: if_splits option.splits member.splits)

lemma index_values_None:
  assumes "index_values net vs maps = (None, maps')"
  shows "maps' k =
    (let new = map (\<lambda>k'. net) (filter (\<lambda>k'. k' = k) (map property_key (filter indexed vs)))
     in if new = [] then maps k else Some ((case maps k of None \<Rightarrow> [] | Some l \<Rightarrow> l) @ new))"
  using assms
proof (induction vs arbitrary: maps)
  case Nil
  then show ?case by simp
next
  case (Cons v vs)
  from Cons.prems obtain maps1 where a: "index_value net v maps = Inr maps1"
    and b: "index_values net vs maps1 = (None, maps')"
    by (auto split: sum.splits)
  note step = index_value_Inr [OF a, of k]
  note rest = Cons.IH [OF b]
  show ?case
    unfolding rest step
    by (auto simp: Let_def split: option.splits)
qed

lemma consistent_register:
  assumes c: "consistent reg"
    and i: "index_values net (Object_values net) (networkMaps reg) = (None, maps')"
  shows "consistent (reg\<lparr> networkMaps := maps', networks := networks reg @ [net] \<rparr>)"
  unfolding consistent_def
proof
  fix k
  let ?new = "map (\<lambda>k'. net) (filter (\<lambda>k'. k' = k) (keys_of net))"
  from c have old: "networkMaps reg k =
      (if entries (networks reg) k = [] then None else Some (entries (networks reg) k))"
    by (simp add: consistent_def)
  have "maps' k = (if ?new = [] then networkMaps reg k
      else Some ((case networkMaps reg k of None \<Rightarrow> [] | Some l \<Rightarrow> l) @ ?new))"
    using index_values_None [OF i, of k] by (simp add: keys_of_def Let_def)
  with old show "networkMaps (reg\<lparr> networkMaps := maps', networks := networks reg @ [net] \<rparr>) k =
      (if entries (networks (reg\<lparr> networkMaps := maps', networks := networks reg @ [net] \<rparr>)) k = []
       then None
       else Some (entries (networks (reg\<lparr> networkMaps := maps', networks := networks reg @ [net] \<rparr>)) k))"
    by (simp add: entries_append entries_single)
qed

lemma consistent_allocated [simp]:
  "consistent (reg\<lparr> allocated := a \<rparr>) = consistent reg"
  by (simp add: consistent_def)

lemma consistent_empty: "consistent empty_registry"
  by (simp add: consistent_def empty_registry_def entries_Nil)

lemma registered_Nil [simp]: "registered a [] = []"
  by (simp add: registered_def)

lemma registered_Cons: "registered a (f # fs) = new_Network a f # registered (Suc a) fs"
  by (simp add: registered_def upt_rec [of a "Suc (a + length fs)"] del: upt_Suc)

lemma registered_append:
  "registered a (fs @ gs) = registered a fs @ registered (a + length fs) gs"
  by (induction fs arbitrary: a) (simp_all add: registered_Cons)

lemma length_registered [simp]: "length (registered a fs) = length fs"
  by (simp add: registered_def)

lemma addNetwork_InrD:
  assumes "addNetwork data reg = (Inr net, reg')"
  shows "\<exists>maps reg1.
    net = new_Network (allocated reg) (props data) \<and>
    index_values net (Object_values net) (networkMaps reg) = (None, maps) \<and>
    reg1 = reg\<lparr> allocated := Suc (allocated reg), networkMaps := maps,
                 networks := networks reg @ [net] \<rparr> \<and>
    add_variants data (variants_or_empty data) reg1 = (None, reg')"
  using assms
  by (subst (asm) addNetwork.simps)
     (auto simp: Let_def split: prod.splits option.splits)

lemma add_variants_Cons_NoneD:
  assumes "add_variants data (v # rest) reg = (None, reg')"
  shows "\<exists>net reg1. addNetwork (spread data v) reg = (Inr net, reg1) \<and>
           add_variants data rest reg1 = (None, reg')"
  using assms by (auto split: prod.splits sum.splits)

lemma add_correct:
  "(\<forall>net reg'. consistent reg \<longrightarrow> addNetwork data reg = (Inr net, reg') \<longrightarrow>
      consistent reg' \<and>
      networks reg' = networks reg @ registered (allocated reg) (expand data) \<and>
      allocated reg' = allocated reg + length (expand data) \<and>
      net = new_Network (allocated reg) (props data))"
  "(\<forall>reg'. consistent reg \<longrightarrow> add_variants data vs reg = (None, reg') \<longrightarrow>
      consistent reg' \<and>
      networks reg' = networks reg @
        registered (allocated reg) (concat (map (\<lambda>v. expand (spread data v)) vs)) \<and>
      allocated reg' = allocated reg + length (concat (map (\<lambda>v. expand (spread data v)) vs)))"
proof (induction data reg and data vs reg rule: addNetwork_add_variants.induct)
  case (1 data reg)
  show ?case
  proof (intro allI impI)
    fix net reg'
    assume c: "consistent reg" and a: "addNetwork data reg = (Inr net, reg')"
    from addNetwork_InrD [OF a] obtain maps where
      net: "net = new_Network (allocated reg) (props data)"
      and i: "index_values net (Object_values net) (networkMaps reg) = (None, maps)"
      and v: "add_variants data (variants_or_empty data)
          (reg\<lparr> allocated := Suc (allocated reg), networkMaps := maps,
               networks := networks reg @ [net] \<rparr>) = (None, reg')"
      by blast
    let ?reg1 = "reg\<lparr> allocated := Suc (allocated reg), networkMaps := maps,
               networks := networks reg @ [net] \<rparr>"
    have c1: "consistent ?reg1"
      using consistent_register [OF c i] by (simp add: consistent_def)
    have i': "(None, maps) = index_values net (Object_values net)
        (networkMaps (reg\<lparr> allocated := Suc (allocated reg) \<rparr>))"
      using i by simp
    have ih: "consistent reg' \<and>
      networks reg' = networks ?reg1 @
        registered (allocated ?reg1)
          (concat (map (\<lambda>v. expand (spread data v)) (variants_or_empty data))) \<and>
      allocated reg' = allocated ?reg1 +
        length (concat (map (\<lambda>v. expand (spread data v)) (variants_or_empty data)))"
      using "1.IH" [OF net refl i' refl] v c1 by simp
    have e: "expand data = props data #
        concat (map (\<lambda>v. expand (spread data v)) (variants_or_empty data))"
      by (rule expand.simps)
    from ih net show "consistent reg' \<and>
      networks reg' = networks reg @ registered (allocated reg) (expand data) \<and>
      allocated reg' = allocated reg + length (expand data) \<and>
      net = new_Network (allocated reg) (props data)"
      by (subst (1 2) e) (simp add: registered_Cons)
  qed
next
  case (2 data reg)
  show ?case by simp
next
  case (3 data variant rest reg)
  show ?case
  proof (intro allI impI)
    fix reg'
    assume c: "consistent reg" and a: "add_variants data (variant # rest) reg = (None, reg')"
    from add_variants_Cons_NoneD [OF a] obtain net reg1 where
      h: "addNetwork (spread data variant) reg = (Inr net, reg1)"
      and t: "add_variants data rest reg1 = (None, reg')"
      by blast
    from "3.IH"(1) c h have one: "consistent reg1"
      "networks reg1 = networks reg @ registered (allocated reg) (expand (spread data variant))"
      "allocated reg1 = allocated reg + length (expand (spread data variant))"
      by blast+
    from "3.IH"(2) [OF h [symmetric] refl] one(1) t have two: "consistent reg'"
      "networks reg' = networks reg1 @
        registered (allocated reg1) (concat (map (\<lambda>v. expand (spread data v)) rest))"
      "allocated reg' = allocated reg1 + length (concat (map (\<lambda>v. expand (spread data v)) rest))"
      by blast+
    from one two show "consistent reg' \<and>
      networks reg' = networks reg @
        registered (allocated reg) (concat (map (\<lambda>v. expand (spread data v)) (variant # rest))) \<and>
      allocated reg' = allocated reg +
        length (concat (map (\<lambda>v. expand (spread data v)) (variant # rest)))"
      by (simp add: registered_append)
  qed
qed

lemma entries_find:
  assumes "find (\<lambda>n. k \<in> set (keys_of n)) nets = Some m"
  shows "\<exists>rest. entries nets k = m # rest"
  using assms
proof (induction nets)
  case Nil
  then show ?case by simp
next
  case (Cons n nets)
  show ?case
  proof (cases "k \<in> set (keys_of n)")
    case True
    with Cons.prems have "m = n" by simp
    moreover from True have "filter (\<lambda>k'. k' = k) (keys_of n) \<noteq> []"
      by (auto simp: filter_empty_conv)
    then obtain x xs where "filter (\<lambda>k'. k' = k) (keys_of n) = x # xs"
      by (cases "filter (\<lambda>k'. k' = k) (keys_of n)") auto
    ultimately show ?thesis by (simp add: entries_def)
  next
    case False
    then have "filter (\<lambda>k'. k' = k) (keys_of n) = []"
      by (auto simp: filter_empty_conv)
    with False Cons show ?thesis by (simp add: entries_def)
  qed
qed

lemma find_holder:
  assumes "n \<in> set nets" and "k \<in> set (keys_of n)"
  shows "\<exists>m. find (\<lambda>n. k \<in> set (keys_of n)) nets = Some m \<and> m \<in> set nets \<and> k \<in> set (keys_of m)"
proof (cases "find (\<lambda>n. k \<in> set (keys_of n)) nets")
  case None
  with assms show ?thesis by (auto simp: find_None_iff)
next
  case (Some m)
  then show ?thesis by (auto simp: find_Some_iff)
qed

lemma get_keyless:
  assumes "consistent reg" and "find (\<lambda>n. arg_key a \<in> set (keys_of n)) (networks reg) = Some m"
    and "\<forall>n. a \<noteq> ANet n"
  shows "get reg a NoKeys = Found m"
proof -
  from entries_find [OF assms(2)] obtain rest
    where e: "entries (networks reg) (arg_key a) = m # rest" by blast
  with assms(1) have "networkMaps reg (arg_key a) = Some (m # rest)"
    by (simp add: consistent_def)
  with assms(3) show ?thesis
    by (cases a) (auto simp: get_def key_list_def networkMaps_at_def)
qed

lemma keys_of_name: "name n = Some t \<Longrightarrow> t \<in> set (keys_of n)"
  by (simp add: keys_of_def Object_values_def js_value_def)

lemma keys_of_alias: "alias' n = Some t \<Longrightarrow> t \<in> set (keys_of n)"
  by (simp add: keys_of_def Object_values_def js_value_def)

lemma keys_of_numbers:
  "pubkeyhash n = Some i \<Longrightarrow> ToString (Num i) \<in> set (keys_of n)"
  "privatekey n = Some i \<Longrightarrow> ToString (Num i) \<in> set (keys_of n)"
  "scripthash n = Some i \<Longrightarrow> ToString (Num i) \<in> set (keys_of n)"
  "xpubkey n = Some i \<Longrightarrow> ToString (Num i) \<in> set (keys_of n)"
  "xprivkey n = Some i \<Longrightarrow> ToString (Num i) \<in> set (keys_of n)"
  "port n = Some i \<Longrightarrow> ToString (Num i) \<in> set (keys_of n)"
  by (simp_all add: keys_of_def Object_values_def js_value_def del: ToString.simps)

lemma field_values_key:
  assumes "a \<in> set (field_values n)"
  shows "arg_key a \<in> set (keys_of n) \<and> (\<forall>m. a \<noteq> ANet m)"
  using assms
  by (auto simp: field_values_def present_def arg_key_def keys_of_name keys_of_alias
      keys_of_numbers simp del: ToString.simps split: option.splits)

lemma find_append_Some: "find P xs = Some m \<Longrightarrow> find P (xs @ ys) = Some m"
  by (induction xs) (auto split: if_splits)

lemma find_append_None:
  "find P xs = None \<Longrightarrow> find P (xs @ ys) = find P ys"
  by (induction xs) (auto split: if_splits)

lemma concat_singletons: "\<forall>x \<in> set xs. f x = [g x] \<Longrightarrow> concat (map f xs) = map g xs"
  by (induction xs) simp_all

lemma expand_flat:
  assumes "\<forall>v \<in> set (variants_or_empty data). variants_or_empty v = []"
  shows "expand data = props data # map (\<lambda>v. override (props data) (props v)) (variants_or_empty data)"
proof -
  have "expand (spread data v) = [override (props data) (props v)]"
    if "v \<in> set (variants_or_empty data)" for v
  proof -
    from that assms have "variants_or_empty v = []" by blast
    then have "variants_or_empty (spread data v) = []"
      by (simp add: variants_or_empty_def spread_def)
    then show ?thesis
      by (subst expand.simps) (simp add: spread_def)
  qed
  then have "concat (map (\<lambda>v. expand (spread data v)) (variants_or_empty data)) =
      map (\<lambda>v. override (props data) (props v)) (variants_or_empty data)"
    by (intro concat_singletons) simp
  then show ?thesis by (subst expand.simps) simp
qed

lemma length_concat_expand:
  assumes "\<And>v. v \<in> set vs \<Longrightarrow> length (expand (spread data v)) = weight v"
  shows "length (concat (map (\<lambda>v. expand (spread data v)) vs)) = sum_list (map weight vs)"
  using assms by (induction vs) simp_all

lemma length_expand: "length (expand data) = weight data"
proof (induction data rule: expand.induct)
  case (1 data)
  have w: "weight (spread data v) = weight v" for v
    by (cases v) (simp add: spread_def)
  have "length (concat (map (\<lambda>v. expand (spread data v)) (variants_or_empty data))) =
      sum_list (map weight (variants_or_empty data))"
    by (rule length_concat_expand) (simp add: 1 w)
  moreover have "weight data = Suc (sum_list (map weight (variants_or_empty data)))"
    by (cases data) (simp add: variants_or_empty_def split: option.splits)
  ultimately show ?case by (subst expand.simps) simp
qed

lemma indexed_under_keys:
  assumes "consistent reg" and "n \<in> set (networks reg)" and "k \<in> set (keys_of n)"
  shows "\<exists>l. networkMaps reg k = Some l \<and> n \<in> set l"
proof -
  from assms(2,3) have "n \<in> set (entries (networks reg) k)"
    by (auto simp: entries_def)
  with assms(1) show ?thesis
    by (auto simp: consistent_def)
qed

lemma oid_registered: "map oid (registered a fs) = [a ..< a + length fs]"
proof (induction fs arbitrary: a)
  case Nil
  show ?case by simp
next
  case (Cons f fs)
  have "[a ..< a + length (f # fs)] = a # [Suc a ..< Suc a + length fs]"
    by (simp add: upt_conv_Cons del: upt_Suc)
  with Cons [of "Suc a"] show ?case
    by (simp add: registered_Cons new_Network_def del: upt_Suc)
qed

lemma keys_of_oid: "keys_of (new_Network i f) = keys_of (new_Network 0 f)"
  by (simp add: keys_of_def Object_values_def new_Network_def)

lemma index_value_ok:
  assumes "indexed v \<longrightarrow> map_of Object_prototype (property_key v) = None"
  shows "\<exists>maps'. index_value net v maps = Inr maps'"
  using assms
  by (auto simp: index_value_def networkMaps_at_def split: option.splits)

lemma index_values_ok:
  assumes "\<forall>k \<in> set (map property_key (filter indexed vs)). map_of Object_prototype k = None"
  shows "\<exists>maps'. index_values net vs maps = (None, maps')"
  using assms
proof (induction vs arbitrary: maps)
  case Nil
  show ?case by simp
next
  case (Cons v vs)
  from Cons.prems have "indexed v \<longrightarrow> map_of Object_prototype (property_key v) = None"
    by simp
  from index_value_ok [OF this] obtain maps1 where a: "index_value net v maps = Inr maps1"
    by blast
  from Cons.prems have "\<forall>k \<in> set (map property_key (filter indexed vs)).
      map_of Object_prototype k = None" by simp
  from Cons.IH [OF this] obtain maps' where "index_values net vs maps1 = (None, maps')"
    by blast
  with a show ?case by simp
qed

lemma clear_expand:
  "clear_of_prototype data \<longleftrightarrow>
     list_all (\<lambda>k. map_of Object_prototype k = None) (keys_of (new_Network 0 (props data))) \<and>
     (\<forall>v \<in> set (variants_or_empty data). clear_of_prototype (spread data v))"
proof -
  let ?ok = "\<lambda>f. list_all (\<lambda>k. map_of Object_prototype k = None) (keys_of (new_Network 0 f))"
  have "clear_of_prototype data \<longleftrightarrow> list_all ?ok (expand data)"
    by (simp only: clear_of_prototype_def)
  also have "expand data =
      props data # concat (map (\<lambda>v. expand (spread data v)) (variants_or_empty data))"
    by (rule expand.simps)
  also have "list_all ?ok \<dots> \<longleftrightarrow>
      ?ok (props data) \<and> (\<forall>v \<in> set (variants_or_empty data). list_all ?ok (expand (spread data v)))"
    by (auto simp: list_all_iff)
  finally show ?thesis
    by (simp only: clear_of_prototype_def)
qed



text \<open>
  Claim C1. \<^verbatim>\<open>nextRound\<close> rejects its input when the number of messages is not
  \<^verbatim>\<open>minSigners - 1\<close>, or some message is tagged with a round other than the current round
  minus one, or some message carries the session's own party id: the call throws an
  assertion error and leaves the whole session, its round counter included, as it was.
  Whatever the argument, a call of \<^verbatim>\<open>nextRound\<close> that throws leaves the round counter
  unchanged.
\<close>

theorem nextRound_rejects:
  assumes "\<not> num_eq (Num (int (length msgs))) (num_add (minSigners s) (- 1))
         \<or> (\<exists>msg \<in> set msgs. \<not> num_eq (msg_round msg) (num_add (round s) (- 1)))
         \<or> (\<exists>msg \<in> set msgs. num_eq (msg_partyId msg) (partyId s))"
  shows "(\<exists>reason. fst (nextRound E s (Array msgs)) = Inl (AssertionError reason))
         \<and> snd (nextRound E s (Array msgs)) = s
         \<and> (\<forall>arg e. fst (nextRound E s arg) = Inl e \<longrightarrow> round (snd (nextRound E s arg)) = round s)"
proof -
  have "\<not> (num_eq (Num (int (length msgs))) (num_add (minSigners s) (- 1))
      \<and> list_all (\<lambda>msg. num_eq (msg_round msg) (num_add (round s) (- 1))) msgs
      \<and> list_all (\<lambda>msg. \<not> num_eq (msg_partyId msg) (partyId s)) msgs)"
    using assms by (auto simp: list_all_iff)
  from nextRound_assertions [OF this, of E] obtain reason
    where "nextRound E s (Array msgs) = (Inl (AssertionError reason), s)" by blast
  then show ?thesis
    by (simp add: nextRound_failure_keeps_round)
qed

theorem nextRound_rejects_witness:
  "(\<exists>reason. fst (nextRound demo_env demo_joined (Array [peer_envelope 3])) = Inl (AssertionError reason))
   \<and> snd (nextRound demo_env demo_joined (Array [peer_envelope 3])) = demo_joined"
  using nextRound_rejects [of "[peer_envelope 3]" demo_joined demo_env]
  by (simp add: peer_envelope_def demo_joined_def demo_session_def)




text \<open>
  Claim C3. Every call of \<^verbatim>\<open>initJoin\<close> or \<^verbatim>\<open>nextRound\<close> that returns an envelope takes the
  round counter from \<open>r\<close> to \<open>r + 1\<close>, and \<^verbatim>\<open>isSignatureReady()\<close> holds exactly when the
  round counter is 5.
\<close>

theorem round_increases_by_one:
  "(fst (initJoin E s) = Inr msg \<longrightarrow>
      (\<exists>r. round s = Num r \<and> round (snd (initJoin E s)) = Num (r + 1)))
   \<and> (fst (nextRound E s arg) = Inr msg \<longrightarrow>
      (\<exists>r. round s = Num r \<and> round (snd (nextRound E s arg)) = Num (r + 1)))
   \<and> (isSignatureReady s \<longleftrightarrow> round s = Num 5)"
proof (intro conjI impI)
  assume "fst (initJoin E s) = Inr msg"
  with initJoin_cases [of E s]
  show "\<exists>r. round s = Num r \<and> round (snd (initJoin E s)) = Num (r + 1)"
    by (elim disjE exE conjE) simp_all
next
  assume "fst (nextRound E s arg) = Inr msg"
  with nextRound_cases [of E s arg]
  show "\<exists>r. round s = Num r \<and> round (snd (nextRound E s arg)) = Num (r + 1)"
    by (elim disjE exE conjE) simp_all
next
  show "isSignatureReady s \<longleftrightarrow> round s = Num 5"
    by (rule isSignatureReady_iff)
qed

theorem round_increases_by_one_witness:
  "(\<exists>msg. fst (initJoin demo_env demo_session) = Inr msg)
   \<and> round demo_session = Num 0 \<and> round (snd (initJoin demo_env demo_session)) = Num 1
   \<and> (\<exists>msg. fst (nextRound demo_env demo_joined (Array [peer_envelope 0])) = Inr msg)
   \<and> round demo_joined = Num 1
   \<and> round (snd (nextRound demo_env demo_joined (Array [peer_envelope 0]))) = Num 2
   \<and> \<not> isSignatureReady demo_joined"
proof -
  let ?a = "Array [peer_envelope 0]"
  obtain m1 where m1: "fst (initJoin demo_env demo_session) = Inr m1"
    by (simp add: demo_initJoin)
  obtain m2 where m2: "fst (nextRound demo_env demo_joined ?a) = Inr m2"
    by (simp add: demo_nextRound)
  have r0: "round demo_session = Num 0" by (simp add: demo_session_def)
  have r1: "round demo_joined = Num 1" by (simp add: demo_joined_def)
  from round_increases_by_one [of demo_env demo_session m1 ?a] m1 r0
  have s1: "round (snd (initJoin demo_env demo_session)) = Num 1" by auto
  from round_increases_by_one [of demo_env demo_joined m2 ?a] m2 r1
  have s2: "round (snd (nextRound demo_env demo_joined ?a)) = Num 2"
    and s3: "\<not> isSignatureReady demo_joined" by auto
  from m1 m2 r0 r1 s1 s2 s3 show ?thesis by blast
qed

text \<open>
  Claim C4. \<^verbatim>\<open>getSignature\<close> throws \<^verbatim>\<open>Signature not ready\<close> whenever
  \<^verbatim>\<open>isSignatureReady()\<close> is false. On a complete session that holds no signature yet, as
  every session the constructor makes, the call hands the message hash, the engine's raw
  signature, the common key chain in hexadecimal and the derivation path to
  \<^verbatim>\<open>verifyAndConvertDklsSignature\<close>; when that throws, so does the call, and nothing is
  kept; otherwise the call returns \<^verbatim>\<open>{r, s, v, pubKey}\<close> made of the four fields of the
  assembler's answer and keeps it in the session. Once a call has returned a signature,
  every later call returns the same signature and leaves the session as it is, whatever
  was called in between and whatever the assembler would answer now: the assembly is
  done by the first call only.
\<close>

theorem getSignature_idempotent:
  "(\<not> isSignatureReady s \<longrightarrow>
      getSignature E s = (Inl (AssertionError ''Signature not ready''), s))
   \<and> (Sign_new E p = Inr s \<longrightarrow> signature s = None)
   \<and> (isSignatureReady s \<and> signature s = None \<longrightarrow>
      getSignature E s =
        (case verifyAndConvertDklsSignature E (messageHash s) (dsg_signature E (dsg s))
                (toString_hex (commonKeyChain (keychain s))) (derivationPath s) of
           Inl e \<Rightarrow> (Inl e, s)
         | Inr converted \<Rightarrow>
             (Inr \<lparr> sig_r = ''0x'' @ (case element (split CHR '':'' converted) 1 of
                                          None \<Rightarrow> ''undefined'' | Some R \<Rightarrow> R),
                    sig_s = ''0x'' @ (case element (split CHR '':'' converted) 2 of
                                          None \<Rightarrow> ''undefined'' | Some S \<Rightarrow> S),
                    sig_v = parseInt_opt (element (split CHR '':'' converted) 0),
                    sig_pubKey = element (split CHR '':'' converted) 3 \<rparr>,
              s\<lparr> signature :=
                   Some \<lparr> sig_r = ''0x'' @ (case element (split CHR '':'' converted) 1 of
                                          None \<Rightarrow> ''undefined'' | Some R \<Rightarrow> R),
                          sig_s = ''0x'' @ (case element (split CHR '':'' converted) 2 of
                                          None \<Rightarrow> ''undefined'' | Some S \<Rightarrow> S),
                          sig_v = parseInt_opt (element (split CHR '':'' converted) 0),
                          sig_pubKey = element (split CHR '':'' converted) 3 \<rparr> \<rparr>)))
   \<and> (getSignature E s = (Inr g, s') \<longrightarrow>
      isSignatureReady s \<and> s' = s\<lparr> signature := Some g \<rparr> \<and> signature s' = Some g \<and>
      (\<forall>E' calls. getSignature E' (run E' s' calls) = (Inr g, s')))"
proof (intro conjI impI allI)
  assume "\<not> isSignatureReady s"
  then show "getSignature E s = (Inl (AssertionError ''Signature not ready''), s)"
    by (rule getSignature_not_ready)
next
  assume "Sign_new E p = Inr s"
  then show "signature s = None"
    by (rule Sign_new_signature)
next
  assume "isSignatureReady s \<and> signature s = None"
  then show "getSignature E s =
        (case verifyAndConvertDklsSignature E (messageHash s) (dsg_signature E (dsg s))
                (toString_hex (commonKeyChain (keychain s))) (derivationPath s) of
           Inl e \<Rightarrow> (Inl e, s)
         | Inr converted \<Rightarrow>
             (Inr \<lparr> sig_r = ''0x'' @ (case element (split CHR '':'' converted) 1 of
                                          None \<Rightarrow> ''undefined'' | Some R \<Rightarrow> R),
                    sig_s = ''0x'' @ (case element (split CHR '':'' converted) 2 of
                                          None \<Rightarrow> ''undefined'' | Some S \<Rightarrow> S),
                    sig_v = parseInt_opt (element (split CHR '':'' converted) 0),
                    sig_pubKey = element (split CHR '':'' converted) 3 \<rparr>,
              s\<lparr> signature :=
                   Some \<lparr> sig_r = ''0x'' @ (case element (split CHR '':'' converted) 1 of
                                          None \<Rightarrow> ''undefined'' | Some R \<Rightarrow> R),
                          sig_s = ''0x'' @ (case element (split CHR '':'' converted) 2 of
                                          None \<Rightarrow> ''undefined'' | Some S \<Rightarrow> S),
                          sig_v = parseInt_opt (element (split CHR '':'' converted) 0),
                          sig_pubKey = element (split CHR '':'' converted) 3 \<rparr> \<rparr>))"
    by (simp add: getSignature_def Let_def hex_field_def split: sum.splits)
next
  assume a: "getSignature E s = (Inr g, s')"
  note f = getSignature_InrD [OF a]
  from f(1) show "isSignatureReady s" by (simp add: isSignatureReady_iff)
  from f(4) show "s' = s\<lparr> signature := Some g \<rparr>" .
  from f(3) show "signature s' = Some g" .
  fix E' calls
  show "getSignature E' (run E' s' calls) = (Inr g, s')"
    by (simp add: complete_run [OF f(2,3)] getSignature_cached [OF f(2,3)])
qed

theorem getSignature_idempotent_witness:
  "getSignature demo_env demo_session = (Inl (AssertionError ''Signature not ready''), demo_session)
   \<and> run demo_env demo_session
        [InitJoin, NextRound (Array [peer_envelope 0]), NextRound (Array [peer_envelope 1]),
         NextRound (Array [peer_envelope 2]), NextRound (Array [peer_envelope 3])] = demo_complete
   \<and> getSignature demo_env demo_complete =
        (Inr \<lparr> sig_r = ''0x636861696e'', sig_s = ''0x0000'', sig_v = Num 1,
               sig_pubKey = Some ''init++++m'' \<rparr>,
         demo_complete\<lparr> signature := Some demo_signature \<rparr>)
   \<and> getSignature (demo_env\<lparr> verifyAndConvertDklsSignature := \<lambda>hash raw chain path. Inl (Thrown ''again'') \<rparr>)
        (run demo_env (demo_complete\<lparr> signature := Some demo_signature \<rparr>)
           [GetSignature, NextRound (Array []), InitJoin, Export]) =
        (Inr demo_signature, demo_complete\<lparr> signature := Some demo_signature \<rparr>)
   \<and> getSignature (demo_env\<lparr> verifyAndConvertDklsSignature := \<lambda>hash raw chain path. Inl (Thrown ''again'') \<rparr>)
        demo_complete = (Inl (Thrown ''again''), demo_complete)"
proof -
  let ?again = "demo_env\<lparr> verifyAndConvertDklsSignature := \<lambda>hash raw chain path. Inl (Thrown ''again'') \<rparr>"
  let ?kept = "demo_complete\<lparr> signature := Some demo_signature \<rparr>"
  have not_ready: "\<not> isSignatureReady demo_session"
    by (simp add: isSignatureReady_def demo_session_def)
  have ready: "isSignatureReady demo_complete \<and> signature demo_complete = None"
    by (simp add: isSignatureReady_def demo_complete_def demo_session_def)
  from getSignature_idempotent [of demo_session demo_env] not_ready
  have a: "getSignature demo_env demo_session =
      (Inl (AssertionError ''Signature not ready''), demo_session)"
    by blast
  note first = getSignature_idempotent [of demo_complete demo_env,
      THEN conjunct2, THEN conjunct2, THEN conjunct1, THEN mp, OF ready]
  have b: "getSignature demo_env demo_complete = (Inr demo_signature, ?kept)"
    unfolding first demo_converted
    by (simp add: element_def parseInt_opt_def parseInt_one demo_signature_def)
  note later = getSignature_idempotent [of demo_complete demo_env _ demo_signature ?kept,
      THEN conjunct2, THEN conjunct2, THEN conjunct2, THEN mp, OF b]
  then have c: "getSignature ?again (run ?again ?kept calls) = (Inr demo_signature, ?kept)" for calls
    by blast
  have "run demo_env ?kept [GetSignature, NextRound (Array []), InitJoin, Export] = ?kept"
    by (rule complete_run [where g = demo_signature]) (simp_all add: demo_complete_def)
  with c [of "[]"] have d: "getSignature ?again
      (run demo_env ?kept [GetSignature, NextRound (Array []), InitJoin, Export]) =
      (Inr demo_signature, ?kept)"
    by (simp add: run_def)
  have "verifyAndConvertDklsSignature ?again (messageHash demo_complete)
      (dsg_signature ?again (dsg demo_complete))
      (toString_hex (commonKeyChain (keychain demo_complete))) (derivationPath demo_complete)
      = Inl (Thrown ''again'')"
    by simp
  with getSignature_idempotent [of demo_complete ?again,
      THEN conjunct2, THEN conjunct2, THEN conjunct1, THEN mp, OF ready]
  have e: "getSignature ?again demo_complete = (Inl (Thrown ''again''), demo_complete)"
    by simp
  from a b d e demo_rounds show ?thesis
    by (simp add: demo_signature_def)
qed



text \<open>
  Claim C6. The envelope that \<^verbatim>\<open>initJoin\<close> or \<^verbatim>\<open>nextRound\<close> returns carries the round the
  session had before the call, and the session's round counter after the call is that
  round plus one.
\<close>

theorem envelope_round_is_previous:
  "(fst (initJoin E s) = Inr msg \<longrightarrow>
      msg_round msg = round s \<and> round (snd (initJoin E s)) = num_add (msg_round msg) 1)
   \<and> (fst (nextRound E s arg) = Inr msg \<longrightarrow>
      msg_round msg = round s \<and> round (snd (nextRound E s arg)) = num_add (msg_round msg) 1)"
proof (intro conjI impI)
  assume a: "fst (initJoin E s) = Inr msg"
  with initJoin_cases [of E s]
  show "msg_round msg = round s" 
    by (elim disjE exE conjE) simp_all
  from a initJoin_cases [of E s]
  show "round (snd (initJoin E s)) = num_add (msg_round msg) 1"
    by (elim disjE exE conjE) simp_all
next
  assume a: "fst (nextRound E s arg) = Inr msg"
  with nextRound_cases [of E s arg]
  show "msg_round msg = round s"
    by (elim disjE exE conjE) simp_all
  from a nextRound_cases [of E s arg]
  show "round (snd (nextRound E s arg)) = num_add (msg_round msg) 1"
    by (elim disjE exE conjE) simp_all
qed

theorem envelope_round_is_previous_witness:
  "(\<exists>msg. fst (initJoin demo_env demo_session) = Inr msg \<and> msg_round msg = Num 0)
   \<and> round (snd (initJoin demo_env demo_session)) = Num 1
   \<and> (\<exists>msg. fst (nextRound demo_env demo_joined (Array [peer_envelope 0])) = Inr msg
          \<and> msg_round msg = Num 1)
   \<and> round (snd (nextRound demo_env demo_joined (Array [peer_envelope 0]))) = Num 2"
proof -
  let ?a = "Array [peer_envelope 0]"
  obtain m1 where m1: "fst (initJoin demo_env demo_session) = Inr m1"
    by (simp add: demo_initJoin)
  obtain m2 where m2: "fst (nextRound demo_env demo_joined ?a) = Inr m2"
    by (simp add: demo_nextRound)
  have r0: "round demo_session = Num 0" by (simp add: demo_session_def)
  have r1: "round demo_joined = Num 1" by (simp add: demo_joined_def)
  from envelope_round_is_previous [of demo_env demo_session m1 ?a] m1 r0
  have s1: "msg_round m1 = Num 0" "round (snd (initJoin demo_env demo_session)) = Num 1"
    by auto
  from envelope_round_is_previous [of demo_env demo_joined m2 ?a] m2 r1
  have s2: "msg_round m2 = Num 1" "round (snd (nextRound demo_env demo_joined ?a)) = Num 2"
    by auto
  from m1 m2 s1 s2 show ?thesis by blast
qed

text \<open>
  Claim C7, as the code has it. When \<^verbatim>\<open>derivationPath\<close> is left out or is \<^verbatim>\<open>null\<close> the
  constructor behaves exactly as with the path \<^verbatim>\<open>'m'\<close>, and the session it makes has the
  path \<^verbatim>\<open>'m'\<close>. The empty string is not taken as absent: the assertion on the path
  rejects it before the fallback \<^verbatim>\<open>derivationPath || 'm'\<close> is reached.
\<close>

theorem root_path_when_absent:
  assumes "nullish dp"
  shows "Sign_new E (p\<lparr> p_derivationPath := dp \<rparr>) = Sign_new E (p\<lparr> p_derivationPath := Value ''m'' \<rparr>)
       \<and> (\<forall>s. Sign_new E (p\<lparr> p_derivationPath := dp \<rparr>) = Inr s \<longrightarrow> derivationPath s = ''m'')
       \<and> (\<exists>reason. Sign_new E (p\<lparr> p_derivationPath := Value [] \<rparr>) = Inl (AssertionError reason))"
proof (intro conjI allI impI)
  show "Sign_new E (p\<lparr> p_derivationPath := dp \<rparr>) = Sign_new E (p\<lparr> p_derivationPath := Value ''m'' \<rparr>)"
    using assms by (rule Sign_new_nullish_path)
  show "\<exists>reason. Sign_new E (p\<lparr> p_derivationPath := Value [] \<rparr>) = Inl (AssertionError reason)"
    by (rule Sign_new_empty_path)
  fix s assume "Sign_new E (p\<lparr> p_derivationPath := dp \<rparr>) = Inr s"
  from Sign_new_path [OF this] assms show "derivationPath s = ''m''"
    by (cases dp) simp_all
qed

theorem root_path_when_absent_witness:
  "Sign_new demo_env (demo_params\<lparr> p_derivationPath := Null \<rparr>) = Inr demo_session
   \<and> derivationPath demo_session = ''m''
   \<and> Sign_new demo_env (demo_params\<lparr> p_derivationPath := Value ''m'' \<rparr>) = Inr demo_session"
proof -
  have n: "nullish (Null :: string nullable)" by simp
  have "demo_params\<lparr> p_derivationPath := Undefined \<rparr> = demo_params"
    by (simp add: demo_params_def)
  with root_path_when_absent [of Undefined demo_env demo_params] demo_new
  have m: "Sign_new demo_env (demo_params\<lparr> p_derivationPath := Value ''m'' \<rparr>) = Inr demo_session"
    by simp
  with root_path_when_absent [OF n, of demo_env demo_params]
  have "Sign_new demo_env (demo_params\<lparr> p_derivationPath := Null \<rparr>) = Inr demo_session"
    by simp
  with m show ?thesis by (simp add: demo_session_def)
qed

theorem empty_path_rejected_counterexample:
  "Sign_new demo_env (demo_params\<lparr> p_derivationPath := Value '''' \<rparr>) =
     Inl (AssertionError (''derivationPath must be a string starting with '' @ [CHR 0x22, CHR ''m'', CHR 0x22]))
   \<and> Sign_new demo_env (demo_params\<lparr> p_derivationPath := Undefined \<rparr>) = Inr demo_session"
proof -
  have "demo_params\<lparr> p_derivationPath := Undefined \<rparr> = demo_params"
    by (simp add: demo_params_def)
  moreover have "Sign_new demo_env (demo_params\<lparr> p_derivationPath := Value '''' \<rparr>) =
     Inl (AssertionError (''derivationPath must be a string starting with '' @ [CHR 0x22, CHR ''m'', CHR 0x22]))"
    by (simp add: Sign_new_def required_def assert_def Let_def parseInt_number_Num demo_params_def)
  ultimately show ?thesis by (simp add: demo_new)
qed

end
